theory Spec2Isabelle
  imports Main "HOL-Library.AList"
begin

section \<open>The bounded cache (src/mcp/utils/cacheManager.ts)\<close>

text \<open>
  The class \<^verbatim>\<open>CacheManager\<close> keeps a JavaScript \<^verbatim>\<open>Map\<close> from string keys to entries.
  A \<^verbatim>\<open>Map\<close> iterates in insertion order, \<^verbatim>\<open>Map.set\<close> on a present key replaces the
  value in place and on an absent key appends, \<^verbatim>\<open>Map.delete\<close> removes the key: the map is
  an association list with \<open>map_of\<close>, \<open>AList.update\<close> and \<open>AList.delete\<close>.
  \<^verbatim>\<open>Date.now()\<close> is an explicit argument \<open>now\<close> (milliseconds, an integer). Sizes, counters
  and the two limits of the configuration are natural numbers.
\<close>

record 'v CacheEntry =
  key :: string
  val :: 'v
  timestamp :: int
  ttl :: int
  accessCount :: nat
  lastAccessed :: int
  size_bytes :: nat

record CacheConfig =
  maxSize :: nat
  defaultTtl :: int
  maxMemoryMB :: nat
  cleanupInterval :: int

record CacheStats =
  hits :: nat
  misses :: nat
  evictions :: nat
  cleanups :: nat

record 'v CacheManager =
  cache :: "(string \<times> 'v CacheEntry) list"
  config :: CacheConfig
  stats :: CacheStats

definition DEFAULT_CACHE_CONFIG :: CacheConfig where
  "DEFAULT_CACHE_CONFIG =
     \<lparr>maxSize = 1000, defaultTtl = 300000, maxMemoryMB = 50, cleanupInterval = 60000\<rparr>"

text \<open>The constructor: an empty map, the given configuration, all counters zero.\<close>

definition new_CacheManager :: "CacheConfig \<Rightarrow> 'v CacheManager" where
  "new_CacheManager cfg =
     \<lparr>cache = [], config = cfg, stats = \<lparr>hits = 0, misses = 0, evictions = 0, cleanups = 0\<rparr>\<rparr>"

text \<open>A JavaScript exception leaves the object in the state reached when it was thrown.\<close>

datatype error = TypeError

datatype 's completion = Normal 's | Thrown error 's

fun state_of :: "'s completion \<Rightarrow> 's" where
  "state_of (Normal s) = s"
| "state_of (Thrown e s) = s"

definition isExpired :: "int \<Rightarrow> 'v CacheEntry \<Rightarrow> bool" where
  "isExpired now entry \<longleftrightarrow> now - timestamp entry > ttl entry"

definition count_miss :: "'v CacheManager \<Rightarrow> 'v CacheManager" where
  "count_miss s = s\<lparr>stats := (stats s)\<lparr>misses := misses (stats s) + 1\<rparr>\<rparr>"

definition count_hit :: "'v CacheManager \<Rightarrow> 'v CacheManager" where
  "count_hit s = s\<lparr>stats := (stats s)\<lparr>hits := hits (stats s) + 1\<rparr>\<rparr>"

definition count_eviction :: "'v CacheManager \<Rightarrow> 'v CacheManager" where
  "count_eviction s = s\<lparr>stats := (stats s)\<lparr>evictions := evictions (stats s) + 1\<rparr>\<rparr>"

text \<open>\<^verbatim>\<open>get(key)\<close>: the result (\<open>None\<close> is \<^verbatim>\<open>null\<close>) and the manager after the call.\<close>

definition get :: "int \<Rightarrow> string \<Rightarrow> 'v CacheManager \<Rightarrow> 'v option \<times> 'v CacheManager" where
  "get now k s =
     (case map_of (cache s) k of
        None \<Rightarrow> (None, count_miss s)
      | Some entry \<Rightarrow>
          if isExpired now entry
          then (None, count_miss (s\<lparr>cache := AList.delete k (cache s)\<rparr>))
          else (Some (val entry),
                count_hit (s\<lparr>cache := AList.update k
                   (entry\<lparr>accessCount := accessCount entry + 1, lastAccessed := now\<rparr>) (cache s)\<rparr>)))"

text \<open>
  \<^verbatim>\<open>has(key)\<close> is written in the same state-passing style as the other methods, so that
  what it does to the manager can be stated.
\<close>

definition has :: "int \<Rightarrow> string \<Rightarrow> 'v CacheManager \<Rightarrow> bool \<times> 'v CacheManager" where
  "has now k s =
     (case map_of (cache s) k of
        None \<Rightarrow> (False, s)
      | Some entry \<Rightarrow> (\<not> isExpired now entry, s))"

definition delete :: "string \<Rightarrow> 'v CacheManager \<Rightarrow> bool \<times> 'v CacheManager" where
  "delete k s = (map_of (cache s) k \<noteq> None, s\<lparr>cache := AList.delete k (cache s)\<rparr>)"

definition clear :: "'v CacheManager \<Rightarrow> 'v CacheManager" where
  "clear s = s\<lparr>cache := [], stats := \<lparr>hits = 0, misses = 0, evictions = 0, cleanups = 0\<rparr>\<rparr>"

text \<open>
  \<^verbatim>\<open>estimateSize\<close>: twice the length of \<^verbatim>\<open>JSON.stringify(value)\<close>, and 1000 when that
  throws or yields \<^verbatim>\<open>undefined\<close> (reading \<^verbatim>\<open>.length\<close> of it throws inside the
  \<^verbatim>\<open>try\<close>). The platform's serializer is the parameter \<open>stringify\<close>.
\<close>

definition estimateSize :: "('v \<Rightarrow> string option) \<Rightarrow> 'v \<Rightarrow> nat" where
  "estimateSize stringify v = (case stringify v of Some s \<Rightarrow> length s * 2 | None \<Rightarrow> 1000)"

definition getCurrentMemoryUsage :: "'v CacheManager \<Rightarrow> nat" where
  "getCurrentMemoryUsage s = foldl (\<lambda>sum e. sum + size_bytes (snd e)) 0 (cache s)"

text \<open>
  \<^verbatim>\<open>Array.prototype.sort(compareFn)\<close> is stable: \<open>x\<close>, which stood before every element
  of \<open>ys\<close>, stays in front of the first \<open>y\<close> it does not compare greater than.
\<close>

fun insert_sorted :: "('a \<Rightarrow> 'a \<Rightarrow> int) \<Rightarrow> 'a \<Rightarrow> 'a list \<Rightarrow> 'a list" where
  "insert_sorted cmp x [] = [x]"
| "insert_sorted cmp x (y # ys) =
     (if cmp x y \<le> 0 then x # y # ys else y # insert_sorted cmp x ys)"

definition array_sort :: "('a \<Rightarrow> 'a \<Rightarrow> int) \<Rightarrow> 'a list \<Rightarrow> 'a list" where
  "array_sort cmp xs = foldr (insert_sorted cmp) xs []"

text \<open>
  \<^verbatim>\<open>evictLeastRecentlyUsed\<close>. \<^verbatim>\<open>Math.floor(entries.length * 0.1)\<close> is \<open>length div 10\<close>.
  The loop reads \<^verbatim>\<open>entries[i]\<close> for \<open>i < toRemove\<close>; destructuring \<^verbatim>\<open>undefined\<close>
  (an index past the end) throws a \<^verbatim>\<open>TypeError\<close>.
\<close>

fun lru_loop ::
  "(string \<times> 'v CacheEntry) list \<Rightarrow> nat \<Rightarrow> 'v CacheManager \<Rightarrow> 'v CacheManager completion" where
  "lru_loop entries 0 s = Normal s"
| "lru_loop [] (Suc n) s = Thrown TypeError s"
| "lru_loop (e # entries) (Suc n) s =
     lru_loop entries n (count_eviction (s\<lparr>cache := AList.delete (fst e) (cache s)\<rparr>))"

definition evictLeastRecentlyUsed :: "'v CacheManager \<Rightarrow> 'v CacheManager completion" where
  "evictLeastRecentlyUsed s =
     (let entries = array_sort (\<lambda>a b. lastAccessed (snd a) - lastAccessed (snd b)) (cache s);
          toRemove = max 1 (length entries div 10)
      in lru_loop entries toRemove s)"

text \<open>
  \<^verbatim>\<open>evictByMemoryPressure\<close>: the comparator adds the size score \<^verbatim>\<open>b.size - a.size\<close> and
  the access score \<^verbatim>\<open>a.accessCount - b.accessCount\<close>; the loop deletes in that order until
  the freed bytes reach the required space.
\<close>

fun pressure_loop ::
  "(string \<times> 'v CacheEntry) list \<Rightarrow> nat \<Rightarrow> nat \<Rightarrow> 'v CacheManager \<Rightarrow> 'v CacheManager" where
  "pressure_loop [] requiredSpace freedSpace s = s"
| "pressure_loop (e # entries) requiredSpace freedSpace s =
     (if freedSpace \<ge> requiredSpace then s
      else pressure_loop entries requiredSpace (freedSpace + size_bytes (snd e))
             (count_eviction (s\<lparr>cache := AList.delete (fst e) (cache s)\<rparr>)))"

definition evictByMemoryPressure :: "nat \<Rightarrow> 'v CacheManager \<Rightarrow> 'v CacheManager" where
  "evictByMemoryPressure requiredSpace s =
     (let entries = array_sort
            (\<lambda>a b. (int (size_bytes (snd b)) - int (size_bytes (snd a)))
                  + (int (accessCount (snd a)) - int (accessCount (snd b)))) (cache s)
      in pressure_loop entries requiredSpace 0 s)"

definition maxMemoryBytes :: "CacheConfig \<Rightarrow> nat" where
  "maxMemoryBytes cfg = maxMemoryMB cfg * 1024 * 1024"

definition ensureSpace :: "nat \<Rightarrow> 'v CacheManager \<Rightarrow> 'v CacheManager completion" where
  "ensureSpace newEntrySize s =
     (case (if length (cache s) \<ge> maxSize (config s) then evictLeastRecentlyUsed s else Normal s) of
        Thrown e s1 \<Rightarrow> Thrown e s1
      | Normal s1 \<Rightarrow>
          Normal (if getCurrentMemoryUsage s1 + newEntrySize > maxMemoryBytes (config s1)
                  then evictByMemoryPressure newEntrySize s1 else s1))"

text \<open>
  \<^verbatim>\<open>set(key, value, ttl?)\<close>. \<^verbatim>\<open>ttl || this.config.defaultTtl\<close> takes the default when the
  argument is missing (\<open>None\<close>) or zero.
\<close>

definition set_cache ::
  "('v \<Rightarrow> string option) \<Rightarrow> int \<Rightarrow> string \<Rightarrow> 'v \<Rightarrow> int option \<Rightarrow> 'v CacheManager
     \<Rightarrow> 'v CacheManager completion" where
  "set_cache stringify now k v ttl_arg s =
     (let entryTtl = (case ttl_arg of None \<Rightarrow> defaultTtl (config s)
                                    | Some t \<Rightarrow> if t = 0 then defaultTtl (config s) else t);
          sz = estimateSize stringify v;
          entry = \<lparr>key = k, val = v, timestamp = now, ttl = entryTtl, accessCount = 1,
                   lastAccessed = now, size_bytes = sz\<rparr>
      in case ensureSpace sz s of
           Thrown e s1 \<Rightarrow> Thrown e s1
         | Normal s1 \<Rightarrow> Normal (s1\<lparr>cache := AList.update k entry (cache s1)\<rparr>))"

text \<open>The periodic \<^verbatim>\<open>cleanup\<close>: every expired entry goes; the counter moves if any went.\<close>

definition cleanup :: "int \<Rightarrow> 'v CacheManager \<Rightarrow> 'v CacheManager" where
  "cleanup now s =
     (let kept = filter (\<lambda>e. \<not> isExpired now (snd e)) (cache s);
          removed = length (cache s) - length kept
      in s\<lparr>cache := kept,
           stats := (if removed > 0 then (stats s)\<lparr>cleanups := cleanups (stats s) + 1\<rparr>
                     else stats s)\<rparr>)"

text \<open>
  For statements about the two limits: the sum of the entries' sizes (what
  \<open>getCurrentMemoryUsage\<close> and the \<^verbatim>\<open>totalSize\<close> of \<^verbatim>\<open>getStatistics\<close> compute), a
  manager within its count limit, a manager within both limits, and a run of \<open>set\<close>
  calls, each with its clock reading, key, value and optional TTL; a call that throws
  leaves the manager as it is when the exception is thrown, and the run goes on.
\<close>

definition mem :: "(string \<times> 'v CacheEntry) list \<Rightarrow> nat" where
  "mem c = sum_list (map (\<lambda>e. size_bytes (snd e)) c)"

definition within_count :: "'v CacheManager \<Rightarrow> bool" where
  "within_count s \<longleftrightarrow> distinct (map fst (cache s)) \<and> length (cache s) \<le> maxSize (config s)"

definition within_budget :: "'v CacheManager \<Rightarrow> bool" where
  "within_budget s \<longleftrightarrow>
     distinct (map fst (cache s)) \<and> length (cache s) \<le> maxSize (config s)
     \<and> getCurrentMemoryUsage s \<le> maxMemoryBytes (config s)"

fun run_sets ::
  "('v \<Rightarrow> string option) \<Rightarrow> (int \<times> string \<times> 'v \<times> int option) list \<Rightarrow> 'v CacheManager
     \<Rightarrow> 'v CacheManager" where
  "run_sets stringify [] s = s"
| "run_sets stringify ((now, k, v, ttl_arg) # calls) s =
     run_sets stringify calls (state_of (set_cache stringify now k v ttl_arg s))"

section \<open>Values that cross the handler boundary\<close>

text \<open>
  The handlers pass \<^verbatim>\<open>any\<close>-typed data around; it is modelled as JSON trees (an object's
  keys are distinct). \<^verbatim>\<open>undefined\<close> and \<^verbatim>\<open>null\<close> are both \<open>JNull\<close>. The JavaScript
  operators the handlers use on such data are \<open>truthy\<close> (the test of \<^verbatim>\<open>if (x)\<close>),
  \<open>js_or\<close> (\<^verbatim>\<open>a || b\<close>), \<open>js_prop\<close> (\<^verbatim>\<open>x?.name\<close>), \<open>first\<close> (\<^verbatim>\<open>x?.[0]\<close>) and
  \<open>js_length\<close> (\<^verbatim>\<open>x?.length\<close>).
\<close>

datatype json =
  JNull | JBool bool | JNum int | JStr string | JArr "json list" | JObj "(string \<times> json) list"

fun truthy :: "json \<Rightarrow> bool" where
  "truthy JNull = False"
| "truthy (JBool b) = b"
| "truthy (JNum n) = (n \<noteq> 0)"
| "truthy (JStr s) = (s \<noteq> [])"
| "truthy (JArr xs) = True"
| "truthy (JObj fs) = True"

definition js_or :: "json \<Rightarrow> json \<Rightarrow> json" where
  "js_or a b = (if truthy a then a else b)"

fun js_prop :: "json \<Rightarrow> string \<Rightarrow> json" where
  "js_prop (JObj fs) name = (case map_of fs name of Some v \<Rightarrow> v | None \<Rightarrow> JNull)"
| "js_prop x name = JNull"

fun first :: "json \<Rightarrow> json" where
  "first (JArr (x # xs)) = x"
| "first (JStr (c # cs)) = JStr [c]"
| "first (JObj fs) = js_prop (JObj fs) ''0''"
| "first x = JNull"

fun js_length :: "json \<Rightarrow> json" where
  "js_length (JArr xs) = JNum (int (length xs))"
| "js_length (JStr s) = JNum (int (length s))"
| "js_length (JObj fs) = js_prop (JObj fs) ''length''"
| "js_length x = JNull"

text \<open>
  What the handlers take from outside the repository. \<open>httpClient_request method url data\<close>
  is the awaited \<^verbatim>\<open>httpClient.request({method, url, data})\<close> of the HTTP client: \<open>Inl message\<close>
  when it rejects with an error of that message, \<open>Inr body\<close> when it resolves with a
  response whose \<^verbatim>\<open>data\<close> is \<open>body\<close>. \<open>JSON_stringify\<close> is \<^verbatim>\<open>JSON.stringify(x)\<close>
  (\<open>None\<close> when it throws or returns \<^verbatim>\<open>undefined\<close>), \<open>JSON_stringify_pretty\<close> is
  \<^verbatim>\<open>JSON.stringify(x, null, 2)\<close>, \<open>toISOString\<close> is \<^verbatim>\<open>new Date().toISOString()\<close>
  at the given clock reading, \<open>js_String\<close> is the conversion a template literal applies,
  \<open>parseInt\<close> is \<^verbatim>\<open>parseInt\<close> (\<open>JNull\<close> stands for \<^verbatim>\<open>NaN\<close>), \<open>TypeError_message\<close>
  is the message of the engine's \<^verbatim>\<open>TypeError\<close> for destructuring \<^verbatim>\<open>undefined\<close> and
  \<open>null_property_message name\<close> the message of its \<^verbatim>\<open>TypeError\<close> for reading the property
  \<open>name\<close> of \<^verbatim>\<open>null\<close> or \<^verbatim>\<open>undefined\<close>.
\<close>

record env =
  httpClient_request :: "string \<Rightarrow> string \<Rightarrow> json \<Rightarrow> string + json"
  JSON_stringify :: "json \<Rightarrow> string option"
  JSON_stringify_pretty :: "json \<Rightarrow> string"
  toISOString :: "int \<Rightarrow> string"
  js_String :: "json \<Rightarrow> string"
  parseInt :: "string \<Rightarrow> json"
  TypeError_message :: string
  null_property_message :: "string \<Rightarrow> string"

fun error_message :: "env \<Rightarrow> error \<Rightarrow> string" where
  "error_message e TypeError = TypeError_message e"

section \<open>The API adapter (class \<^verbatim>\<open>SiYuanAPIAdapter\<close>) and its tool names\<close>

text \<open>
  The table \<^verbatim>\<open>SIYUAN_API_MAPPINGS\<close> in the order of the source, with the three fields
  of an \<^verbatim>\<open>APIMapping\<close> that the adapter reads (the field \<^verbatim>\<open>method\<close> is \<open>method_of\<close>
  here), and the keys of \<^verbatim>\<open>TOOL_CATEGORIES\<close>.
\<close>

record APIMapping =
  apiPath :: string
  method_of :: string
  category :: string

definition SIYUAN_API_MAPPINGS :: "(string \<times> APIMapping) list" where
  "SIYUAN_API_MAPPINGS =
     [
      (''notebook_create_new'', \<lparr>apiPath = ''/api/notebook/createNotebook'', method_of = ''POST'', category = ''notebook''\<rparr>),
      (''notebook_remove_existing'', \<lparr>apiPath = ''/api/notebook/removeNotebook'', method_of = ''POST'', category = ''notebook''\<rparr>),
      (''notebook_list_all'', \<lparr>apiPath = ''/api/notebook/lsNotebooks'', method_of = ''POST'', category = ''notebook''\<rparr>),
      (''notebook_open_existing'', \<lparr>apiPath = ''/api/notebook/openNotebook'', method_of = ''POST'', category = ''notebook''\<rparr>),
      (''notebook_close_existing'', \<lparr>apiPath = ''/api/notebook/closeNotebook'', method_of = ''POST'', category = ''notebook''\<rparr>),
      (''notebook_rename_existing'', \<lparr>apiPath = ''/api/notebook/renameNotebook'', method_of = ''POST'', category = ''notebook''\<rparr>),
      (''notebook_get_config'', \<lparr>apiPath = ''/api/notebook/getNotebookConf'', method_of = ''POST'', category = ''notebook''\<rparr>),
      (''notebook_set_config'', \<lparr>apiPath = ''/api/notebook/setNotebookConf'', method_of = ''POST'', category = ''notebook''\<rparr>),
      (''filetree_list_docs'', \<lparr>apiPath = ''/api/filetree/listDocsByPath'', method_of = ''POST'', category = ''filetree''\<rparr>),
      (''filetree_create_doc'', \<lparr>apiPath = ''/api/filetree/createDocWithMd'', method_of = ''POST'', category = ''filetree''\<rparr>),
      (''filetree_rename_doc'', \<lparr>apiPath = ''/api/filetree/renameDoc'', method_of = ''POST'', category = ''filetree''\<rparr>),
      (''filetree_remove_doc'', \<lparr>apiPath = ''/api/filetree/removeDoc'', method_of = ''POST'', category = ''filetree''\<rparr>),
      (''filetree_move_doc'', \<lparr>apiPath = ''/api/filetree/moveDoc'', method_of = ''POST'', category = ''filetree''\<rparr>),
      (''filetree_get_doc'', \<lparr>apiPath = ''/api/filetree/getDoc'', method_of = ''POST'', category = ''filetree''\<rparr>),
      (''filetree_search_docs'', \<lparr>apiPath = ''/api/filetree/searchDocs'', method_of = ''POST'', category = ''filetree''\<rparr>),
      (''block_insert_new'', \<lparr>apiPath = ''/api/block/insertBlock'', method_of = ''POST'', category = ''block''\<rparr>),
      (''block_prepend_child'', \<lparr>apiPath = ''/api/block/prependBlock'', method_of = ''POST'', category = ''block''\<rparr>),
      (''block_append_child'', \<lparr>apiPath = ''/api/block/appendBlock'', method_of = ''POST'', category = ''block''\<rparr>),
      (''block_update_content'', \<lparr>apiPath = ''/api/block/updateBlock'', method_of = ''POST'', category = ''block''\<rparr>),
      (''block_delete_existing'', \<lparr>apiPath = ''/api/block/deleteBlock'', method_of = ''POST'', category = ''block''\<rparr>),
      (''block_get_kramdown'', \<lparr>apiPath = ''/api/block/getBlockKramdown'', method_of = ''POST'', category = ''block''\<rparr>),
      (''block_get_breadcrumb'', \<lparr>apiPath = ''/api/block/getBlockBreadcrumb'', method_of = ''POST'', category = ''block''\<rparr>),
      (''block_get_children'', \<lparr>apiPath = ''/api/block/getChildBlocks'', method_of = ''POST'', category = ''block''\<rparr>),
      (''block_move_to_position'', \<lparr>apiPath = ''/api/block/moveBlock'', method_of = ''POST'', category = ''block''\<rparr>),
      (''block_fold_toggle'', \<lparr>apiPath = ''/api/block/foldBlock'', method_of = ''POST'', category = ''block''\<rparr>),
      (''block_get_tree_stat'', \<lparr>apiPath = ''/api/block/getBlockTreeStat'', method_of = ''POST'', category = ''block''\<rparr>),
      (''asset_upload_file'', \<lparr>apiPath = ''/api/asset/upload'', method_of = ''POST'', category = ''asset''\<rparr>),
      (''search_fulltext_blocks'', \<lparr>apiPath = ''/api/search/fullTextSearchBlock'', method_of = ''POST'', category = ''search''\<rparr>),
      (''search_sql_query'', \<lparr>apiPath = ''/api/query/sql'', method_of = ''POST'', category = ''search''\<rparr>),
      (''fs_list_files'', \<lparr>apiPath = ''/api/file/readDir'', method_of = ''POST'', category = ''filesystem''\<rparr>),
      (''fs_get_file'', \<lparr>apiPath = ''/api/file/getFile'', method_of = ''POST'', category = ''filesystem''\<rparr>),
      (''fs_put_file'', \<lparr>apiPath = ''/api/file/putFile'', method_of = ''POST'', category = ''filesystem''\<rparr>),
      (''fs_remove_file'', \<lparr>apiPath = ''/api/file/removeFile'', method_of = ''POST'', category = ''filesystem''\<rparr>),
      (''export_markdown_content'', \<lparr>apiPath = ''/api/export/exportMdContent'', method_of = ''POST'', category = ''export''\<rparr>),
      (''export_html_content'', \<lparr>apiPath = ''/api/export/exportHtml'', method_of = ''POST'', category = ''export''\<rparr>),
      (''export_docx_content'', \<lparr>apiPath = ''/api/export/exportDocx'', method_of = ''POST'', category = ''export''\<rparr>),
      (''export_pdf_content'', \<lparr>apiPath = ''/api/export/exportPDF'', method_of = ''POST'', category = ''export''\<rparr>),
      (''system_get_conf'', \<lparr>apiPath = ''/api/system/getConf'', method_of = ''POST'', category = ''system''\<rparr>),
      (''system_set_conf'', \<lparr>apiPath = ''/api/system/setConf'', method_of = ''POST'', category = ''system''\<rparr>),
      (''system_get_changelog'', \<lparr>apiPath = ''/api/system/getChangelog'', method_of = ''POST'', category = ''system''\<rparr>),
      (''system_version_info'', \<lparr>apiPath = ''/api/system/version'', method_of = ''POST'', category = ''system''\<rparr>),
      (''system_currenttime_info'', \<lparr>apiPath = ''/api/system/currentTime'', method_of = ''POST'', category = ''system''\<rparr>)]"

definition TOOL_CATEGORIES :: "string list" where
  "TOOL_CATEGORIES =
     [''notebook'', ''filetree'', ''block'', ''asset'', ''search'', ''filesystem'', ''export'',
      ''system'']"

definition getAPIsByCategory :: "string \<Rightarrow> APIMapping list" where
  "getAPIsByCategory c = filter (\<lambda>api. category api = c) (map snd SIYUAN_API_MAPPINGS)"

definition findToolNameForAPI :: "string \<Rightarrow> string option" where
  "findToolNameForAPI path =
     map_option fst (find (\<lambda>entry. apiPath (snd entry) = path) SIYUAN_API_MAPPINGS)"

text \<open>
  A generated tool, with the fields the adapter reads: its name and, from its metadata,
  the method and the path. \<^verbatim>\<open>generateToolDefinition\<close> gives \<^verbatim>\<open>null\<close> for a mapping whose
  category is not a key of \<^verbatim>\<open>TOOL_CATEGORIES\<close>.
\<close>

record MCPToolDefinition =
  tool_name :: string
  tool_method :: string
  tool_apiPath :: string

definition generateToolDefinition :: "string \<Rightarrow> APIMapping \<Rightarrow> MCPToolDefinition option" where
  "generateToolDefinition toolName api =
     (if category api \<in> set TOOL_CATEGORIES
      then Some \<lparr>tool_name = toolName, tool_method = method_of api, tool_apiPath = apiPath api\<rparr>
      else None)"

definition generateAllTools :: "MCPToolDefinition list" where
  "generateAllTools =
     concat (map (\<lambda>categoryId.
        concat (map (\<lambda>api.
          case findToolNameForAPI (apiPath api) of
            None \<Rightarrow> []
          | Some toolName \<Rightarrow>
              (case generateToolDefinition toolName api of None \<Rightarrow> [] | Some tool \<Rightarrow> [tool]))
          (getAPIsByCategory categoryId)))
        TOOL_CATEGORIES)"

definition legacyMappings :: "(string \<times> string \<times> string) list" where
  "legacyMappings =
     [(''siyuan_create_notebook'', ''POST'', ''/api/notebook/createNotebook''),
      (''siyuan_list_notebooks'', ''POST'', ''/api/notebook/lsNotebooks''),
      (''siyuan_get_notebook_conf'', ''POST'', ''/api/notebook/getNotebookConf''),
      (''siyuan_get_block_kramdown'', ''POST'', ''/api/block/getBlockKramdown''),
      (''siyuan_insert_block'', ''POST'', ''/api/block/insertBlock''),
      (''siyuan_fulltext_search_block'', ''POST'', ''/api/search/fullTextSearchBlock''),
      (''siyuan_sql_query'', ''POST'', ''/api/query/sql'')]"

text \<open>
  \<^verbatim>\<open>getAPICallForTool\<close>: the generated tool of that name, else the legacy mapping, else
  \<^verbatim>\<open>null\<close>. (The legacy table is a plain object: the lookup is modelled for the names
  that are not properties every object inherits, such as \<^verbatim>\<open>constructor\<close>.)
\<close>

definition getAPICallForTool :: "string \<Rightarrow> (string \<times> string) option" where
  "getAPICallForTool toolName =
     (case find (\<lambda>t. tool_name t = toolName) generateAllTools of
        Some tool \<Rightarrow> Some (tool_method tool, tool_apiPath tool)
      | None \<Rightarrow> map_of legacyMappings toolName)"

text \<open>
  \<^verbatim>\<open>makeAPICall\<close> returns the body of the response, or throws \<^verbatim>\<open>SiYuan API error: ...\<close>.
  \<^verbatim>\<open>callTool\<close> throws \<^verbatim>\<open>Unknown tool: ...\<close> for a name without an API call; otherwise it
  returns the \<^verbatim>\<open>data\<close> of the body, and every exception in between (from \<^verbatim>\<open>makeAPICall\<close>,
  or from reading \<^verbatim>\<open>data\<close> of a body that is \<^verbatim>\<open>null\<close>) is rethrown as
  \<^verbatim>\<open>API call failed: ...\<close>. \<open>Inl message\<close> is an error thrown with that message.
\<close>

definition makeAPICall :: "env \<Rightarrow> string \<Rightarrow> string \<Rightarrow> json \<Rightarrow> string + json" where
  "makeAPICall e method path data =
     (case httpClient_request e method path data of
        Inl message \<Rightarrow> Inl (''SiYuan API error: '' @ message)
      | Inr body \<Rightarrow> Inr body)"

definition callTool :: "env \<Rightarrow> string \<Rightarrow> json \<Rightarrow> string + json" where
  "callTool e toolName args =
     (case getAPICallForTool toolName of
        None \<Rightarrow> Inl (''Unknown tool: '' @ toolName)
      | Some apiCall \<Rightarrow>
          (case makeAPICall e (fst apiCall) (snd apiCall) args of
             Inl message \<Rightarrow> Inl (''API call failed: '' @ message)
           | Inr response \<Rightarrow>
               if response = JNull
               then Inl (''API call failed: '' @ null_property_message e ''data'')
               else Inr (js_prop response ''data'')))"

section \<open>The caching resource handlers (class \<^verbatim>\<open>SiYuanResourcesManager\<close>)\<close>

record ResourceContent =
  uri :: string
  text_of :: json
  mimeType :: string

type_synonym ResourceResponse = "ResourceContent list"

definition json_contents :: "env \<Rightarrow> string \<Rightarrow> json \<Rightarrow> ResourceResponse" where
  "json_contents e href data =
     [\<lparr>uri = href, text_of = JStr (JSON_stringify_pretty e data), mimeType = ''application/json''\<rparr>]"

definition error_contents :: "string \<Rightarrow> string \<Rightarrow> ResourceResponse" where
  "error_contents href message = [\<lparr>uri = href, text_of = JStr message, mimeType = ''text/plain''\<rparr>]"

definition metadata_of :: "env \<Rightarrow> string \<Rightarrow> int \<Rightarrow> string \<Rightarrow> json" where
  "metadata_of e resourceType now href =
     JObj [(''resourceType'', JStr resourceType), (''timestamp'', JStr (toISOString e now)),
           (''uri'', JStr href)]"

text \<open>
  The test \<^verbatim>\<open>if (cached)\<close> on the result of \<open>get\<close>: \<^verbatim>\<open>null\<close> (\<open>None\<close>) is falsy, a
  stored value counts by its own truthiness.
\<close>

definition cached_hit :: "json option \<Rightarrow> bool" where
  "cached_hit cached = (case cached of None \<Rightarrow> False | Some v \<Rightarrow> truthy v)"

text \<open>
  Every handler makes its calls in the order of the source: \<open>get\<close> at clock reading
  \<open>now\<close>; on a miss the awaited upstream call; then, at clock reading \<open>now2\<close>, the data
  object and \<open>set\<close>. An exception between \<^verbatim>\<open>try\<close> and \<^verbatim>\<open>catch\<close> (from the upstream call
  or from \<open>set\<close>) gives the error text.
\<close>

definition handleNotebookResource ::
  "env \<Rightarrow> int \<Rightarrow> int \<Rightarrow> string \<Rightarrow> string \<Rightarrow> json CacheManager
     \<Rightarrow> ResourceResponse \<times> json CacheManager" where
  "handleNotebookResource e now now2 href notebookId s =
     (let cacheKey = ''notebook:'' @ notebookId;
          (cached, s1) = get now cacheKey s
      in if cached_hit cached then (json_contents e href (the cached), s1)
         else case callTool e ''siyuan_get_notebook_conf'' (JObj [(''notebook'', JStr notebookId)]) of
           Inl message \<Rightarrow>
             (error_contents href (''Error accessing notebook '' @ notebookId @ '': '' @ message), s1)
         | Inr notebookConf \<Rightarrow>
             (let notebookData = JObj [(''id'', JStr notebookId), (''config'', notebookConf),
                                      (''metadata'', metadata_of e ''notebook'' now2 href)]
              in case set_cache (JSON_stringify e) now2 cacheKey notebookData (Some 300000) s1 of
                   Normal s2 \<Rightarrow> (json_contents e href notebookData, s2)
                 | Thrown err s2 \<Rightarrow>
                     (error_contents href
                        (''Error accessing notebook '' @ notebookId @ '': '' @ error_message e err), s2)))"

definition handleNotebooksListResource ::
  "env \<Rightarrow> int \<Rightarrow> int \<Rightarrow> string \<Rightarrow> json CacheManager \<Rightarrow> ResourceResponse \<times> json CacheManager" where
  "handleNotebooksListResource e now now2 href s =
     (let cacheKey = ''notebooks:list'';
          (cached, s1) = get now cacheKey s
      in if cached_hit cached then (json_contents e href (the cached), s1)
         else case callTool e ''siyuan_list_notebooks'' (JObj []) of
           Inl message \<Rightarrow> (error_contents href (''Error listing notebooks: '' @ message), s1)
         | Inr notebooks \<Rightarrow>
             (let notebooksData = JObj [(''notebooks'', notebooks),
                    (''count'', js_or (js_length (js_prop notebooks ''notebooks'')) (JNum 0)),
                    (''metadata'', metadata_of e ''notebooks-list'' now2 href)]
              in case set_cache (JSON_stringify e) now2 cacheKey notebooksData (Some 120000) s1 of
                   Normal s2 \<Rightarrow> (json_contents e href notebooksData, s2)
                 | Thrown err s2 \<Rightarrow>
                     (error_contents href (''Error listing notebooks: '' @ error_message e err), s2)))"

definition handleDocumentResource ::
  "env \<Rightarrow> int \<Rightarrow> int \<Rightarrow> string \<Rightarrow> string \<Rightarrow> json CacheManager
     \<Rightarrow> ResourceResponse \<times> json CacheManager" where
  "handleDocumentResource e now now2 href documentId s =
     (let cacheKey = ''document:'' @ documentId;
          (cached, s1) = get now cacheKey s
      in if cached_hit cached
         then ([\<lparr>uri = href, text_of = js_prop (the cached) ''content'', mimeType = ''text/markdown''\<rparr>], s1)
         else case callTool e ''siyuan_get_block_kramdown'' (JObj [(''id'', JStr documentId)]) of
           Inl message \<Rightarrow>
             (error_contents href (''Error accessing document '' @ documentId @ '': '' @ message), s1)
         | Inr kramdown \<Rightarrow>
             (let content = js_or (js_prop kramdown ''kramdown'') (JStr '''');
                  documentData = JObj [(''id'', JStr documentId), (''content'', content),
                                      (''metadata'', metadata_of e ''document'' now2 href)]
              in case set_cache (JSON_stringify e) now2 cacheKey documentData (Some 60000) s1 of
                   Normal s2 \<Rightarrow> ([\<lparr>uri = href, text_of = content, mimeType = ''text/markdown''\<rparr>], s2)
                 | Thrown err s2 \<Rightarrow>
                     (error_contents href
                        (''Error accessing document '' @ documentId @ '': '' @ error_message e err), s2)))"

definition handleBlockResource ::
  "env \<Rightarrow> int \<Rightarrow> int \<Rightarrow> string \<Rightarrow> string \<Rightarrow> json CacheManager
     \<Rightarrow> ResourceResponse \<times> json CacheManager" where
  "handleBlockResource e now now2 href blockId s =
     (let cacheKey = ''block:'' @ blockId;
          (cached, s1) = get now cacheKey s
      in if cached_hit cached then (json_contents e href (the cached), s1)
         else case callTool e ''siyuan_get_block_kramdown'' (JObj [(''id'', JStr blockId)]) of
           Inl message \<Rightarrow>
             (error_contents href (''Error accessing block '' @ blockId @ '': '' @ message), s1)
         | Inr kramdown \<Rightarrow>
             (let blockData = JObj [(''id'', JStr blockId),
                    (''content'', js_or (js_prop kramdown ''kramdown'') (JStr '''')),
                    (''metadata'', metadata_of e ''block'' now2 href)]
              in case set_cache (JSON_stringify e) now2 cacheKey blockData (Some 30000) s1 of
                   Normal s2 \<Rightarrow> (json_contents e href blockData, s2)
                 | Thrown err s2 \<Rightarrow>
                     (error_contents href
                        (''Error accessing block '' @ blockId @ '': '' @ error_message e err), s2)))"

text \<open>
  The search handler's \<^verbatim>\<open>params.method || '0'\<close> and \<^verbatim>\<open>params.limit || '20'\<close> take the
  default when the parameter is missing or the empty string.
\<close>

definition param_or :: "string option \<Rightarrow> string \<Rightarrow> string" where
  "param_or p d = (case p of None \<Rightarrow> d | Some v \<Rightarrow> if v = [] then d else v)"

definition search_types :: json where
  "search_types = JObj (map (\<lambda>n. (n, JBool True))
     [''document'', ''heading'', ''list'', ''listItem'', ''codeBlock'', ''mathBlock'', ''table'',
      ''blockquote'', ''superBlock'', ''paragraph''])"

definition handleSearchResource ::
  "env \<Rightarrow> int \<Rightarrow> int \<Rightarrow> string \<Rightarrow> string \<Rightarrow> string option \<Rightarrow> string option \<Rightarrow> json CacheManager
     \<Rightarrow> ResourceResponse \<times> json CacheManager" where
  "handleSearchResource e now now2 href query method_param limit_param s =
     (let method = parseInt e (param_or method_param ''0'');
          limit = parseInt e (param_or limit_param ''20'');
          cacheKey = ''search:'' @ query @ '':'' @ js_String e method @ '':'' @ js_String e limit;
          (cached, s1) = get now cacheKey s
      in if cached_hit cached then (json_contents e href (the cached), s1)
         else case callTool e ''siyuan_fulltext_search_block''
                     (JObj [(''query'', JStr query), (''method'', method), (''types'', search_types),
                            (''paths'', JArr []), (''groupBy'', JNum 0), (''orderBy'', JNum 0),
                            (''page'', JNum 1), (''pageSize'', limit)]) of
           Inl message \<Rightarrow>
             (error_contents href
                (''Error searching for '' @ [CHR 0x22] @ query @ [CHR 0x22] @ '': '' @ message), s1)
         | Inr searchResults \<Rightarrow>
             (let searchData = JObj [(''query'', JStr query), (''method'', method), (''limit'', limit),
                    (''results'', searchResults), (''metadata'', metadata_of e ''search'' now2 href)]
              in case set_cache (JSON_stringify e) now2 cacheKey searchData (Some 30000) s1 of
                   Normal s2 \<Rightarrow> (json_contents e href searchData, s2)
                 | Thrown err s2 \<Rightarrow>
                     (error_contents href
                        (''Error searching for '' @ [CHR 0x22] @ query @ [CHR 0x22] @ '': ''
                           @ error_message e err), s2)))"

definition handleWorkspaceResource ::
  "env \<Rightarrow> int \<Rightarrow> int \<Rightarrow> string \<Rightarrow> json CacheManager \<Rightarrow> ResourceResponse \<times> json CacheManager" where
  "handleWorkspaceResource e now now2 href s =
     (let cacheKey = ''workspace:info'';
          (cached, s1) = get now cacheKey s
      in if cached_hit cached then (json_contents e href (the cached), s1)
         else case callTool e ''siyuan_get_conf'' (JObj []) of
           Inl message \<Rightarrow> (error_contents href (''Error accessing workspace: '' @ message), s1)
         | Inr conf \<Rightarrow>
            (case callTool e ''siyuan_list_notebooks'' (JObj []) of
               Inl message \<Rightarrow> (error_contents href (''Error accessing workspace: '' @ message), s1)
             | Inr notebooks \<Rightarrow>
                (let workspaceData = JObj [(''configuration'', conf), (''notebooks'', notebooks),
                       (''metadata'', metadata_of e ''workspace'' now2 href)]
                 in case set_cache (JSON_stringify e) now2 cacheKey workspaceData (Some 300000) s1 of
                      Normal s2 \<Rightarrow> (json_contents e href workspaceData, s2)
                    | Thrown err s2 \<Rightarrow>
                        (error_contents href
                           (''Error accessing workspace: '' @ error_message e err), s2))))"

section \<open>The write-operation tool handlers (class \<^verbatim>\<open>SiYuanToolsManager\<close>)\<close>

text \<open>
  A tool response: the text of its one content item, the \<^verbatim>\<open>isError\<close> flag (absent on
  success, so false) and the metadata object. The arguments of a tool are the strings
  its input schema declares; an optional argument that is missing is \<open>JNull\<close>.
\<close>

record ToolResponse =
  tool_text :: string
  isError :: bool
  metadata :: "(string \<times> json) list"

definition tool_error :: "string \<Rightarrow> string \<Rightarrow> string \<Rightarrow> ToolResponse" where
  "tool_error operation what message =
     \<lparr>tool_text = ''Error '' @ what @ '': '' @ message, isError = True,
      metadata = [(''operation'', JStr operation), (''error'', JStr message)]\<rparr>"

definition createDocument ::
  "env \<Rightarrow> string \<Rightarrow> string \<Rightarrow> string \<Rightarrow> json CacheManager \<Rightarrow> ToolResponse \<times> json CacheManager" where
  "createDocument e notebook path markdown s =
     (case callTool e ''siyuan_create_doc_with_md''
             (JObj [(''notebook'', JStr notebook), (''path'', JStr path), (''markdown'', JStr markdown)]) of
        Inl message \<Rightarrow> (tool_error ''create-document'' ''creating document'' message, s)
      | Inr result \<Rightarrow>
          (let s1 = snd (delete (''notebook:'' @ notebook) s);
               s2 = snd (delete ''notebooks:list'' s1)
           in (\<lparr>tool_text = ''Document created successfully at '' @ path @ ''. Document ID: ''
                    @ js_String e (js_or (js_prop result ''id'') (JStr ''unknown'')),
                isError = False,
                metadata = [(''operation'', JStr ''create-document''),
                            (''documentId'', js_prop result ''id''), (''path'', JStr path)]\<rparr>, s2)))"

definition updateDocument ::
  "env \<Rightarrow> string \<Rightarrow> string \<Rightarrow> json CacheManager \<Rightarrow> ToolResponse \<times> json CacheManager" where
  "updateDocument e documentId markdown s =
     (case callTool e ''siyuan_update_block''
             (JObj [(''id'', JStr documentId), (''dataType'', JStr ''markdown''), (''data'', JStr markdown)]) of
        Inl message \<Rightarrow> (tool_error ''update-document'' ''updating document'' message, s)
      | Inr result \<Rightarrow>
          (let s1 = snd (delete (''document:'' @ documentId) s);
               s2 = snd (delete (''block:'' @ documentId) s1)
           in (\<lparr>tool_text = ''Document '' @ documentId @ '' updated successfully'', isError = False,
                metadata = [(''operation'', JStr ''update-document''),
                            (''documentId'', JStr documentId)]\<rparr>, s2)))"

definition deleteDocument ::
  "env \<Rightarrow> string \<Rightarrow> string \<Rightarrow> json CacheManager \<Rightarrow> ToolResponse \<times> json CacheManager" where
  "deleteDocument e notebook path s =
     (case callTool e ''siyuan_remove_doc'' (JObj [(''notebook'', JStr notebook), (''path'', JStr path)]) of
        Inl message \<Rightarrow> (tool_error ''delete-document'' ''deleting document'' message, s)
      | Inr result \<Rightarrow>
          (let s1 = snd (delete (''notebook:'' @ notebook) s)
           in (\<lparr>tool_text = ''Document at '' @ path @ '' deleted successfully'', isError = False,
                metadata = [(''operation'', JStr ''delete-document''), (''path'', JStr path)]\<rparr>, s1)))"

definition insertBlock ::
  "env \<Rightarrow> string \<Rightarrow> string \<Rightarrow> string \<Rightarrow> json \<Rightarrow> json CacheManager
     \<Rightarrow> ToolResponse \<times> json CacheManager" where
  "insertBlock e dataType data parentID previousID s =
     (case callTool e ''siyuan_insert_block''
             (JObj [(''dataType'', JStr dataType), (''data'', JStr data), (''parentID'', JStr parentID),
                    (''previousID'', previousID)]) of
        Inl message \<Rightarrow> (tool_error ''insert-block'' ''inserting block'' message, s)
      | Inr result \<Rightarrow>
          (let s1 = snd (delete (''block:'' @ parentID) s);
               s2 = snd (delete (''block-children:'' @ parentID) s1);
               newId = js_prop (first (js_prop (first result) ''doOperations'')) ''id''
           in (\<lparr>tool_text = ''Block inserted successfully. Block ID: ''
                    @ js_String e (js_or newId (JStr ''unknown'')),
                isError = False,
                metadata = [(''operation'', JStr ''insert-block''), (''parentID'', JStr parentID),
                            (''blockId'', newId)]\<rparr>, s2)))"

definition updateBlock ::
  "env \<Rightarrow> string \<Rightarrow> string \<Rightarrow> string \<Rightarrow> json CacheManager \<Rightarrow> ToolResponse \<times> json CacheManager" where
  "updateBlock e blockId dataType data s =
     (case callTool e ''siyuan_update_block''
             (JObj [(''id'', JStr blockId), (''dataType'', JStr dataType), (''data'', JStr data)]) of
        Inl message \<Rightarrow> (tool_error ''update-block'' ''updating block'' message, s)
      | Inr result \<Rightarrow>
          (let s1 = snd (delete (''block:'' @ blockId) s)
           in (\<lparr>tool_text = ''Block '' @ blockId @ '' updated successfully'', isError = False,
                metadata = [(''operation'', JStr ''update-block''), (''blockId'', JStr blockId)]\<rparr>, s1)))"

definition deleteBlock ::
  "env \<Rightarrow> string \<Rightarrow> json CacheManager \<Rightarrow> ToolResponse \<times> json CacheManager" where
  "deleteBlock e blockId s =
     (case callTool e ''siyuan_delete_block'' (JObj [(''id'', JStr blockId)]) of
        Inl message \<Rightarrow> (tool_error ''delete-block'' ''deleting block'' message, s)
      | Inr result \<Rightarrow>
          (let s1 = snd (delete (''block:'' @ blockId) s)
           in (\<lparr>tool_text = ''Block '' @ blockId @ '' deleted successfully'', isError = False,
                metadata = [(''operation'', JStr ''delete-block''), (''blockId'', JStr blockId)]\<rparr>, s1)))"

definition moveBlock ::
  "env \<Rightarrow> string \<Rightarrow> string \<Rightarrow> json \<Rightarrow> json CacheManager \<Rightarrow> ToolResponse \<times> json CacheManager" where
  "moveBlock e blockId parentID previousID s =
     (case callTool e ''siyuan_move_block''
             (JObj [(''id'', JStr blockId), (''parentID'', JStr parentID), (''previousID'', previousID)]) of
        Inl message \<Rightarrow> (tool_error ''move-block'' ''moving block'' message, s)
      | Inr result \<Rightarrow>
          (let s1 = snd (delete (''block:'' @ blockId) s);
               s2 = snd (delete (''block-children:'' @ parentID) s1)
           in (\<lparr>tool_text = ''Block '' @ blockId @ '' moved successfully to parent '' @ parentID,
                isError = False,
                metadata = [(''operation'', JStr ''move-block''), (''blockId'', JStr blockId),
                            (''newParentId'', JStr parentID)]\<rparr>, s2)))"

section \<open>The session registry and request router (class \<^verbatim>\<open>StreamableHTTPTransportManager\<close>)\<close>

text \<open>
  The registry is the \<^verbatim>\<open>Map\<close> \<^verbatim>\<open>sessions\<close>. The protocol server and the transport of a
  session are objects of the protocol SDK; what they do enters through \<open>sdk\<close>:
  \<open>isInitializeRequest\<close> is the SDK's test of a request body, \<open>randomUUID\<close> the
  identifier drawn for a new session, \<open>connect_throws\<close> says whether setting up or
  connecting the new server throws, \<open>handleRequest sid body\<close> is the awaited
  \<^verbatim>\<open>transport.handleRequest\<close> of session \<open>sid\<close>, and \<open>server_close sid\<close> the awaited
  \<^verbatim>\<open>server.close()\<close>.
\<close>

record SessionInfo =
  session_id :: string
  createdAt :: int
  lastActivity :: int

datatype transport_outcome =
    Responded
  | HandleThrows bool  \<comment> \<open>the flag is \<^verbatim>\<open>res.headersSent\<close>\<close>

datatype close_outcome =
    Closed
  | CloseThrows bool string
      \<comment> \<open>the message, and whether the transport's \<^verbatim>\<open>onclose\<close> callback ran before the throw\<close>

record sdk =
  isInitializeRequest :: "json \<Rightarrow> bool"
  randomUUID :: string
  connect_throws :: bool
  handleRequest :: "string \<Rightarrow> json \<Rightarrow> transport_outcome"
  server_close :: "string \<Rightarrow> close_outcome"

datatype http_response =
    Json nat json         \<comment> \<open>\<^verbatim>\<open>res.status(n).json(body)\<close>\<close>
  | Send nat string       \<comment> \<open>\<^verbatim>\<open>res.status(n).send(text)\<close>\<close>
  | FromTransport string  \<comment> \<open>the transport of that session wrote the response\<close>
  | NothingMore           \<comment> \<open>an error after the headers were sent\<close>

definition jsonrpc_error :: "int \<Rightarrow> string \<Rightarrow> json" where
  "jsonrpc_error code message =
     JObj [(''jsonrpc'', JStr ''2.0''),
           (''error'', JObj [(''code'', JNum code), (''message'', JStr message)]),
           (''id'', JNull)]"

text \<open>
  The header \<^verbatim>\<open>mcp-session-id\<close> is \<open>None\<close> when absent. The test \<^verbatim>\<open>if (sessionId \<dots>)\<close> is
  the truthiness of a string: an empty header value counts as no identifier.
\<close>

definition has_session_id :: "string option \<Rightarrow> bool" where
  "has_session_id sessionId = (case sessionId of None \<Rightarrow> False | Some x \<Rightarrow> x \<noteq> [])"

text \<open>
  \<^verbatim>\<open>createNewSession\<close>: the registry entry is written last, after the server has been
  set up and connected; when that throws, the registry is as before.
\<close>

definition createNewSession ::
  "sdk \<Rightarrow> int \<Rightarrow> (string \<times> SessionInfo) list \<Rightarrow> (SessionInfo \<times> (string \<times> SessionInfo) list) option" where
  "createNewSession k now sessions =
     (if connect_throws k then None
      else (let sessionInfo = \<lparr>session_id = randomUUID k, createdAt = now, lastActivity = now\<rparr>
            in Some (sessionInfo, AList.update (randomUUID k) sessionInfo sessions)))"

definition forward_to_transport ::
  "sdk \<Rightarrow> string \<Rightarrow> json \<Rightarrow> (string \<times> SessionInfo) list \<Rightarrow> http_response \<times> (string \<times> SessionInfo) list" where
  "forward_to_transport k sid body sessions =
     (case handleRequest k sid body of
        Responded \<Rightarrow> (FromTransport sid, sessions)
      | HandleThrows headersSent \<Rightarrow>
          (if headersSent then NothingMore
           else Json 500 (jsonrpc_error (- 32603) ''Internal server error''), sessions))"

definition handleClientToServerRequest ::
  "sdk \<Rightarrow> int \<Rightarrow> string option \<Rightarrow> json \<Rightarrow> (string \<times> SessionInfo) list
     \<Rightarrow> http_response \<times> (string \<times> SessionInfo) list" where
  "handleClientToServerRequest k now sessionId body sessions =
     (if has_session_id sessionId \<and> map_of sessions (the sessionId) \<noteq> None
      then (let sessionInfo = the (map_of sessions (the sessionId))
            in forward_to_transport k (the sessionId) body
                 (AList.update (the sessionId) (sessionInfo\<lparr>lastActivity := now\<rparr>) sessions))
      else if \<not> has_session_id sessionId \<and> isInitializeRequest k body
      then (case createNewSession k now sessions of
              None \<Rightarrow> (Json 500 (jsonrpc_error (- 32603) ''Internal server error''), sessions)
            | Some (sessionInfo, sessions1) \<Rightarrow>
                forward_to_transport k (session_id sessionInfo) body sessions1)
      else (Json 400 (jsonrpc_error (- 32000)
              ''Bad Request: No valid session ID provided or not an initialization request''),
            sessions))"

text \<open>
  \<^verbatim>\<open>terminateSession\<close>: the thrown error's message, if any, and the registry afterwards.
  When \<^verbatim>\<open>server.close()\<close> throws, the \<^verbatim>\<open>catch\<close> block rethrows and the lines that close
  the transport and delete the registry entry are not reached; the entry is gone only
  if the transport's \<^verbatim>\<open>onclose\<close> callback (which deletes it) had run.
  (\<^verbatim>\<open>transport.close()\<close> is called without \<^verbatim>\<open>await\<close>: what it does later does not
  stop the deletion.)
\<close>

definition terminateSession ::
  "sdk \<Rightarrow> string \<Rightarrow> (string \<times> SessionInfo) list \<Rightarrow> string option \<times> (string \<times> SessionInfo) list" where
  "terminateSession k sid sessions =
     (case map_of sessions sid of
        None \<Rightarrow> (Some (''Session '' @ sid @ '' not found''), sessions)
      | Some sessionInfo \<Rightarrow>
          (case server_close k sid of
             Closed \<Rightarrow> (None, AList.delete sid sessions)
           | CloseThrows onclose_ran message \<Rightarrow>
               (Some message, if onclose_ran then AList.delete sid sessions else sessions)))"

definition handleSessionTermination ::
  "sdk \<Rightarrow> string option \<Rightarrow> (string \<times> SessionInfo) list \<Rightarrow> http_response \<times> (string \<times> SessionInfo) list" where
  "handleSessionTermination k sessionId sessions =
     (if \<not> has_session_id sessionId \<or> map_of sessions (the sessionId) = None
      then (Send 400 ''Invalid or missing session ID'', sessions)
      else (case terminateSession k (the sessionId) sessions of
              (None, sessions1) \<Rightarrow> (Send 200 ''Session terminated successfully'', sessions1)
            | (Some message, sessions1) \<Rightarrow> (Send 500 ''Error terminating session'', sessions1)))"

text \<open>
  The body of the timer callback of \<^verbatim>\<open>setupCleanup\<close>, run at clock reading \<open>now\<close>: every
  session whose last activity is more than 30 minutes old is handed to
  \<open>terminateSession\<close>, whose error, if any, is caught and logged. (The timer itself, every
  five minutes, is not modelled.)
\<close>

definition maxAge :: int where
  "maxAge = 30 * 60 * 1000"

definition cleanup_step ::
  "sdk \<Rightarrow> int \<Rightarrow> string \<times> SessionInfo \<Rightarrow> (string \<times> SessionInfo) list \<Rightarrow> (string \<times> SessionInfo) list" where
  "cleanup_step k now entry sessions =
     (if now - lastActivity (snd entry) > maxAge
      then snd (terminateSession k (fst entry) sessions) else sessions)"

definition setupCleanup_tick ::
  "sdk \<Rightarrow> int \<Rightarrow> (string \<times> SessionInfo) list \<Rightarrow> (string \<times> SessionInfo) list" where
  "setupCleanup_tick k now sessions = fold (cleanup_step k now) sessions sessions"

text \<open>
  Whether the teardown of a session takes its entry out of the registry: it does when
  \<^verbatim>\<open>server.close()\<close> returns, and when it throws after the \<^verbatim>\<open>onclose\<close> callback ran.
\<close>

definition teardown_removes :: "sdk \<Rightarrow> string \<Rightarrow> bool" where
  "teardown_removes k sid =
     (case server_close k sid of Closed \<Rightarrow> True | CloseThrows onclose_ran message \<Rightarrow> onclose_ran)"

section \<open>The SSE transport (class \<^verbatim>\<open>SSETransport\<close>)\<close>

text \<open>
  The transport keeps a \<^verbatim>\<open>Map\<close> of connection states and a \<^verbatim>\<open>Map\<close> of message handlers
  by message type. The response stream of a connection is outside the model: whether a
  write to it throws is the parameter \<open>write_throws\<close>. The identifiers that
  \<^verbatim>\<open>generateConnectionId\<close> and \<^verbatim>\<open>generateMessageId\<close> draw and the clock are arguments. A
  handler is the function from the message to what awaiting it gives: \<open>Inr result\<close>, or
  \<open>Inl text\<close> when it throws an error with that message.
\<close>

record SSEConnection =
  conn_id :: string
  clientAddress :: string
  connectedAt :: int
  conn_lastActivity :: int
  authenticated :: bool
  sessionToken :: "string option"

record SSEConnectionState =
  connection :: SSEConnection
  isAlive :: bool
  pingInterval :: bool

record SSEMessage =
  msg_id :: string
  msg_type :: string
  correlationId :: "string option"
  msg_timestamp :: int
  msg_data :: json

record SSETransport =
  connections :: "(string \<times> SSEConnectionState) list"
  messageHandlers :: "(string \<times> (SSEMessage \<Rightarrow> string + json)) list"

text \<open>
  What a call does to the outside: a message written to the stream of a connection, the
  stream of a connection ended, a handler called with a message that came in on a
  connection.
\<close>

datatype sse_effect =
    Written string SSEMessage
  | Ended string
  | Invoked string SSEMessage

text \<open>
  \<^verbatim>\<open>closeConnection\<close> stops the timer, ends the stream (an error there is swallowed) and
  removes the bookkeeping; on a connection it does not know it does nothing.
\<close>

definition closeConnection :: "string \<Rightarrow> SSETransport \<Rightarrow> SSETransport \<times> sse_effect list" where
  "closeConnection cid t =
     (case map_of (connections t) cid of
        None \<Rightarrow> (t, [])
      | Some connectionState \<Rightarrow> (t\<lparr>connections := AList.delete cid (connections t)\<rparr>, [Ended cid]))"

text \<open>
  \<^verbatim>\<open>sendMessage\<close>: the result, the transport afterwards and the effects. A write that
  throws closes the connection.
\<close>

definition sendMessage ::
  "(string \<Rightarrow> SSEMessage \<Rightarrow> bool) \<Rightarrow> int \<Rightarrow> string \<Rightarrow> SSEMessage \<Rightarrow> SSETransport
     \<Rightarrow> bool \<times> SSETransport \<times> sse_effect list" where
  "sendMessage write_throws now cid message t =
     (case map_of (connections t) cid of
        None \<Rightarrow> (False, t, [])
      | Some connectionState \<Rightarrow>
          if \<not> isAlive connectionState then (False, t, [])
          else if write_throws cid message then (False, closeConnection cid t)
          else (True,
                t\<lparr>connections := AList.update cid
                     (connectionState\<lparr>connection :=
                        (connection connectionState)\<lparr>conn_lastActivity := now\<rparr>\<rparr>) (connections t)\<rparr>,
                [Written cid message]))"

text \<open>
  \<^verbatim>\<open>handleConnection\<close> registers the connection with \<^verbatim>\<open>authenticated: false\<close>, sends the
  confirmation and then stores the keep-alive timer in the connection state.
\<close>

definition start_ping :: "string \<Rightarrow> SSETransport \<Rightarrow> SSETransport" where
  "start_ping cid t =
     (case map_of (connections t) cid of
        None \<Rightarrow> t
      | Some connectionState \<Rightarrow>
          t\<lparr>connections := AList.update cid (connectionState\<lparr>pingInterval := True\<rparr>) (connections t)\<rparr>)"

definition connection_established :: "string \<Rightarrow> int \<Rightarrow> string \<Rightarrow> SSEMessage" where
  "connection_established mid now connectionId =
     \<lparr>msg_id = mid, msg_type = ''notification'', correlationId = None, msg_timestamp = now,
      msg_data = JObj [(''type'', JStr ''connection_established''),
                       (''connectionId'', JStr connectionId),
                       (''serverInfo'', JObj [(''name'', JStr ''SiYuan MCP Server''),
                          (''version'', JStr ''0.1.0''),
                          (''capabilities'',
                           JArr [JStr ''tools'', JStr ''resources'', JStr ''prompts''])])]\<rparr>"

definition handleConnection ::
  "(string \<Rightarrow> SSEMessage \<Rightarrow> bool) \<Rightarrow> int \<Rightarrow> string \<Rightarrow> string \<Rightarrow> string \<Rightarrow> SSETransport
     \<Rightarrow> SSETransport \<times> sse_effect list" where
  "handleConnection write_throws now connectionId address mid t =
     (let connectionState =
            \<lparr>connection = \<lparr>conn_id = connectionId, clientAddress = address, connectedAt = now,
                            conn_lastActivity = now, authenticated = False, sessionToken = None\<rparr>,
             isAlive = True, pingInterval = False\<rparr>;
          t1 = t\<lparr>connections := AList.update connectionId connectionState (connections t)\<rparr>;
          sent = sendMessage write_throws now connectionId
                   (connection_established mid now connectionId) t1
      in (start_ping connectionId (fst (snd sent)), snd (snd sent)))"

text \<open>
  \<^verbatim>\<open>handleAuthentication\<close> marks the connection authenticated (there is no check of the
  credentials in the source) and sends the token.
\<close>

definition handleAuthentication ::
  "(string \<Rightarrow> SSEMessage \<Rightarrow> bool) \<Rightarrow> int \<Rightarrow> string \<Rightarrow> string \<Rightarrow> SSEMessage \<Rightarrow> SSETransport
     \<Rightarrow> SSETransport \<times> sse_effect list" where
  "handleAuthentication write_throws now mid cid message t =
     (case map_of (connections t) cid of
        None \<Rightarrow> (t, [])
      | Some connectionState \<Rightarrow>
          (let token = ''dummy-token-'' @ cid;
               t1 = t\<lparr>connections := AList.update cid
                      (connectionState\<lparr>connection := (connection connectionState)
                         \<lparr>authenticated := True, sessionToken := Some token\<rparr>\<rparr>) (connections t)\<rparr>
           in snd (sendMessage write_throws now cid
                \<lparr>msg_id = mid, msg_type = ''response'', correlationId = Some (msg_id message),
                 msg_timestamp = now,
                 msg_data = JObj [(''success'', JBool True), (''sessionToken'', JStr token)]\<rparr> t1)))"

text \<open>
  The test \<^verbatim>\<open>message.type === 'request' && message.data?.method === 'auth'\<close>, and the
  error message that answers a request on an unauthenticated connection.
\<close>

definition is_auth_request :: "SSEMessage \<Rightarrow> bool" where
  "is_auth_request message \<longleftrightarrow>
     msg_type message = ''request'' \<and> js_prop (msg_data message) ''method'' = JStr ''auth''"

definition auth_required_error :: "string \<Rightarrow> int \<Rightarrow> SSEMessage \<Rightarrow> SSEMessage" where
  "auth_required_error mid now message =
     \<lparr>msg_id = mid, msg_type = ''error'', correlationId = Some (msg_id message), msg_timestamp = now,
      msg_data = JObj [(''code'', JNum (- 32001)), (''message'', JStr ''Authentication required''),
                       (''data'', JStr ''Please authenticate before making requests'')]\<rparr>"

text \<open>
  \<^verbatim>\<open>processIncomingMessage\<close>. \<open>touch\<close> is the update of \<^verbatim>\<open>lastActivity\<close>; \<open>reply_of\<close> is
  the message sent after the handler of a request returned or threw.
\<close>

definition touch :: "int \<Rightarrow> string \<Rightarrow> SSEConnectionState \<Rightarrow> SSETransport \<Rightarrow> SSETransport" where
  "touch now c cs t = t\<lparr>connections := AList.update c
      (cs\<lparr>connection := (connection cs)\<lparr>conn_lastActivity := now\<rparr>\<rparr>) (connections t)\<rparr>"

definition reply_of :: "(SSEMessage \<Rightarrow> string + json) \<Rightarrow> string \<Rightarrow> int \<Rightarrow> SSEMessage \<Rightarrow> SSEMessage" where
  "reply_of handler mid now message =
     (case handler message of
        Inr result \<Rightarrow>
          \<lparr>msg_id = mid, msg_type = ''response'',
           correlationId = Some (msg_id message), msg_timestamp = now,
           msg_data = result\<rparr>
      | Inl error_text \<Rightarrow>
          \<lparr>msg_id = mid, msg_type = ''error'',
           correlationId = Some (msg_id message), msg_timestamp = now,
           msg_data = JObj [(''code'', JNum (- 32603)),
                            (''message'', JStr ''Internal error''),
                            (''data'', JStr error_text)]\<rparr>)"

definition processIncomingMessage ::
  "(string \<Rightarrow> SSEMessage \<Rightarrow> bool) \<Rightarrow> int \<Rightarrow> string \<Rightarrow> string \<Rightarrow> SSEMessage \<Rightarrow> SSETransport
     \<Rightarrow> SSETransport \<times> sse_effect list" where
  "processIncomingMessage write_throws now mid cid message t =
     (case map_of (connections t) cid of
        None \<Rightarrow> (t, [])
      | Some connectionState \<Rightarrow>
          (let t1 = touch now cid connectionState t
           in if is_auth_request message
              then handleAuthentication write_throws now mid cid message t1
              else if \<not> authenticated (connection connectionState) \<and> msg_type message = ''request''
              then snd (sendMessage write_throws now cid (auth_required_error mid now message) t1)
              else (case map_of (messageHandlers t1) (msg_type message) of
                      None \<Rightarrow> (t1, [])
                    | Some handler \<Rightarrow>
                        if msg_type message = ''request''
                        then (let sent = sendMessage write_throws now cid
                                           (reply_of handler mid now message) t1
                              in (fst (snd sent), Invoked cid message # snd (snd sent)))
                        else (t1, [Invoked cid message]))))"

text \<open>
  A run of incoming messages, each with the clock reading, the message identifier drawn
  for the answer and the connection it came in on; and whether a connection is still
  unauthenticated, which it also counts as when it is not registered.
\<close>

fun process_all ::
  "(string \<Rightarrow> SSEMessage \<Rightarrow> bool) \<Rightarrow> (int \<times> string \<times> string \<times> SSEMessage) list \<Rightarrow> SSETransport
     \<Rightarrow> SSETransport \<times> sse_effect list" where
  "process_all write_throws [] t = (t, [])"
| "process_all write_throws ((now, mid, cid, message) # rest) t =
     (let (t1, effects1) = processIncomingMessage write_throws now mid cid message t;
          (t2, effects2) = process_all write_throws rest t1
      in (t2, effects1 @ effects2))"

definition unauthenticated :: "SSETransport \<Rightarrow> string \<Rightarrow> bool" where
  "unauthenticated t cid =
     (case map_of (connections t) cid of
        None \<Rightarrow> True
      | Some connectionState \<Rightarrow> \<not> authenticated (connection connectionState))"

section \<open>Example inputs\<close>

text \<open>
  \<^verbatim>\<open>JSON.stringify\<close> of a string without characters that need escaping: the string in
  double quotes.
\<close>

definition stringify_text :: "string \<Rightarrow> string option" where
  "stringify_text t = Some (CHR 0x22 # t @ [CHR 0x22])"

text \<open>\<^verbatim>\<open>set("doc:1", "hello", 1000)\<close> at time 0 on a new manager with the default limits.\<close>

definition scenarioA :: "string CacheManager" where
  "scenarioA =
     state_of (set_cache stringify_text 0 ''doc:1'' ''hello'' (Some 1000)
                 (new_CacheManager DEFAULT_CACHE_CONFIG))"

definition scenarioA_entry :: "string CacheEntry" where
  "scenarioA_entry =
     \<lparr>key = ''doc:1'', val = ''hello'', timestamp = 0, ttl = 1000, accessCount = 1,
      lastAccessed = 0, size_bytes = 14\<rparr>"

text \<open>\<^verbatim>\<open>JSON.stringify\<close> of a one-digit number: the digit.\<close>

definition stringify_digit :: "nat \<Rightarrow> string option" where
  "stringify_digit n = Some [char_of (48 + n)]"

text \<open>
  Scenario B of the specification on a manager with \<^verbatim>\<open>maxSize: 2\<close>:
  \<^verbatim>\<open>set("a", 1)\<close> at time \<open>t0\<close>, \<^verbatim>\<open>set("b", 2)\<close> at \<open>t1\<close>, \<^verbatim>\<open>get("a")\<close> at \<open>t2\<close>,
  \<^verbatim>\<open>set("c", 3)\<close> at \<open>t3\<close>.
\<close>

definition scenarioB :: "int \<Rightarrow> int \<Rightarrow> int \<Rightarrow> int \<Rightarrow> nat CacheManager" where
  "scenarioB t0 t1 t2 t3 =
     (let s0 = new_CacheManager (DEFAULT_CACHE_CONFIG\<lparr>maxSize := 2\<rparr>);
          s1 = state_of (set_cache stringify_digit t0 ''a'' 1 None s0);
          s2 = state_of (set_cache stringify_digit t1 ''b'' 2 None s1);
          s3 = snd (get t2 ''a'' s2)
      in state_of (set_cache stringify_digit t3 ''c'' 3 None s3))"

text \<open>The entries and managers that Scenario B runs through.\<close>

definition entryB :: "string \<Rightarrow> nat \<Rightarrow> int \<Rightarrow> nat \<Rightarrow> int \<Rightarrow> nat CacheEntry" where
  "entryB k v t n la =
     \<lparr>key = k, val = v, timestamp = t, ttl = 300000, accessCount = n, lastAccessed = la,
      size_bytes = 2\<rparr>"

definition stateB :: "(string \<times> nat CacheEntry) list \<Rightarrow> nat \<Rightarrow> nat \<Rightarrow> nat CacheManager" where
  "stateB c h e =
     \<lparr>cache = c, config = DEFAULT_CACHE_CONFIG\<lparr>maxSize := 2\<rparr>,
      stats = \<lparr>hits = h, misses = 0, evictions = e, cleanups = 0\<rparr>\<rparr>"

text \<open>
  An environment whose HTTP client always times out (its \<open>parseInt\<close> and \<open>js_String\<close> are
  right on \<^verbatim>\<open>0\<close> and \<^verbatim>\<open>20\<close>, the defaults of the search handler), and a manager that holds
  an expired document entry.
\<close>

definition failing_env :: env where
  "failing_env =
     \<lparr>httpClient_request = (\<lambda>method url data. Inl ''timeout of 30000ms exceeded''),
      JSON_stringify = (\<lambda>v. Some ''{}''),
      JSON_stringify_pretty = (\<lambda>v. ''{}''),
      toISOString = (\<lambda>t. ''1970-01-01T00:00:00.000Z''),
      js_String = (\<lambda>v. case v of JStr s \<Rightarrow> s | JNum n \<Rightarrow> if n = 20 then ''20'' else ''0''
                        | _ \<Rightarrow> ''null''),
      parseInt = (\<lambda>s. if s = ''20'' then JNum 20 else JNum 0),
      TypeError_message = ''undefined is not iterable'',
      null_property_message =
        (\<lambda>name. ''Cannot read properties of null (reading '' @ [CHR 0x27] @ name @ [CHR 0x27] @ '')'')\<rparr>"

definition stale_document_cache :: "json CacheManager" where
  "stale_document_cache =
     \<lparr>cache = [(''document:D1'',
         \<lparr>key = ''document:D1'', val = JObj [(''id'', JStr ''D1''), (''content'', JStr ''old text'')],
          timestamp = 0, ttl = 60000, accessCount = 1, lastAccessed = 0, size_bytes = 4\<rparr>)],
      config = DEFAULT_CACHE_CONFIG,
      stats = \<lparr>hits = 0, misses = 0, evictions = 0, cleanups = 0\<rparr>\<rparr>"

text \<open>
  An environment whose HTTP client answers the two requests that follow the way the
  SiYuan kernel does, with a body of \<^verbatim>\<open>code\<close>, \<^verbatim>\<open>msg\<close> and \<^verbatim>\<open>data\<close>: the Kramdown of every
  block is the given text, and an inserted block gets the identifier
  \<^verbatim>\<open>20210808180320-abz7w6k\<close>. Then the manager left by reading the document resource of
  document \<^verbatim>\<open>20210808180117-6v0mkxr\<close> at time 0 while its Kramdown is \<^verbatim>\<open>old text\<close>.
\<close>

definition kernel_body :: "json \<Rightarrow> json" where
  "kernel_body d = JObj [(''code'', JNum 0), (''msg'', JStr ''''), (''data'', d)]"

definition kernel_env :: "string \<Rightarrow> env" where
  "kernel_env kramdown =
     failing_env\<lparr>httpClient_request := (\<lambda>method url data.
        if method = ''POST'' \<and> url = ''/api/block/getBlockKramdown''
        then Inr (kernel_body (JObj [(''id'', js_prop data ''id''), (''kramdown'', JStr kramdown)]))
        else if method = ''POST'' \<and> url = ''/api/block/insertBlock''
        then Inr (kernel_body (JArr [JObj [(''doOperations'',
                    JArr [JObj [(''action'', JStr ''insert''), (''id'', JStr ''20210808180320-abz7w6k''),
                                (''parentID'', js_prop data ''parentID'')]]),
                  (''undoOperations'', JNull)]]))
        else Inl ''Request failed with status code 404'')\<rparr>"

definition document_cached :: "json CacheManager" where
  "document_cached =
     snd (handleDocumentResource (kernel_env ''old text'') 0 0
            ''siyuan://document/20210808180117-6v0mkxr'' ''20210808180117-6v0mkxr''
            (new_CacheManager DEFAULT_CACHE_CONFIG))"

text \<open>
  A document of 600000 characters, and a manager limited to one megabyte.
\<close>

definition big_document :: string where
  "big_document = replicate 600000 (CHR ''a'')"

definition one_megabyte_cache :: "string CacheManager" where
  "one_megabyte_cache = new_CacheManager (DEFAULT_CACHE_CONFIG\<lparr>maxMemoryMB := 1\<rparr>)"

text \<open>
  A registry of four sessions, last active at 0, 1000, 2000 and 1700000 ms, and an SDK
  in which closing the server of \<^verbatim>\<open>session-b\<close> throws.
\<close>

definition quiet_sdk :: sdk where
  "quiet_sdk =
     \<lparr>isInitializeRequest = (\<lambda>body. js_prop body ''method'' = JStr ''initialize''),
      randomUUID = ''3f2b8c1e-0000-4000-8000-000000000001'',
      connect_throws = False,
      handleRequest = (\<lambda>sid body. Responded),
      server_close = (\<lambda>sid. if sid = ''session-b'' then CloseThrows False ''close failed'' else Closed)\<rparr>"

definition three_sessions :: "(string \<times> SessionInfo) list" where
  "three_sessions =
     [(''session-a'', \<lparr>session_id = ''session-a'', createdAt = 0, lastActivity = 0\<rparr>),
      (''session-b'', \<lparr>session_id = ''session-b'', createdAt = 0, lastActivity = 1000\<rparr>),
      (''session-c'', \<lparr>session_id = ''session-c'', createdAt = 0, lastActivity = 2000\<rparr>),
      (''session-d'', \<lparr>session_id = ''session-d'', createdAt = 0, lastActivity = 1700000\<rparr>)]"

text \<open>
  A transport whose writes never throw, with a handler for requests and one for
  notifications, after one connection has been opened; a request, a notification and an
  authentication request.
\<close>

definition never_throws :: "string \<Rightarrow> SSEMessage \<Rightarrow> bool" where
  "never_throws cid message = False"

definition echo_handlers :: "(string \<times> (SSEMessage \<Rightarrow> string + json)) list" where
  "echo_handlers =
     [(''request'', \<lambda>message. Inr (JObj [(''ok'', JBool True)])),
      (''notification'', \<lambda>message. Inr JNull)]"

definition fresh_connection :: SSETransport where
  "fresh_connection =
     fst (handleConnection never_throws 0 ''sse_1'' ''127.0.0.1'' ''msg_1''
            \<lparr>connections = [], messageHandlers = echo_handlers\<rparr>)"

definition list_tools_request :: SSEMessage where
  "list_tools_request =
     \<lparr>msg_id = ''req-1'', msg_type = ''request'', correlationId = None, msg_timestamp = 1,
      msg_data = JObj [(''method'', JStr ''tools/list'')]\<rparr>"

definition progress_notification :: SSEMessage where
  "progress_notification =
     \<lparr>msg_id = ''note-1'', msg_type = ''notification'', correlationId = None, msg_timestamp = 2,
      msg_data = JObj [(''method'', JStr ''progress'')]\<rparr>"

definition auth_request :: SSEMessage where
  "auth_request =
     \<lparr>msg_id = ''req-2'', msg_type = ''request'', correlationId = None, msg_timestamp = 3,
      msg_data = JObj [(''method'', JStr ''auth''), (''token'', JStr ''secret'')]\<rparr>"

section \<open>Facts about the association list, the sort and the two eviction loops\<close>

lemma delete_as_filter: "AList.delete k c = filter (\<lambda>p. fst p \<noteq> k) c"
  by (induction c) (auto simp: AList.delete_eq)

lemma insert_sorted_key:
  "insert_sorted (\<lambda>a b. f a - f b) x ys = insort_key f x ys" for f :: "'a \<Rightarrow> int"
  by (induction ys) simp_all

lemma array_sort_key:
  "array_sort (\<lambda>a b. f a - f b) xs = sort_key f xs" for f :: "'a \<Rightarrow> int"
proof -
  have "insert_sorted (\<lambda>a b. f a - f b) = insort_key f"
    by (intro ext) (rule insert_sorted_key)
  then show ?thesis
    by (simp add: array_sort_def sort_key_def)
qed

lemma set_insert_sorted: "set (insert_sorted cmp x ys) = insert x (set ys)"
  by (induction ys) auto

lemma set_array_sort: "set (array_sort cmp xs) = set xs"
  unfolding array_sort_def by (induction xs) (simp_all add: set_insert_sorted)

lemma length_insert_sorted: "length (insert_sorted cmp x ys) = Suc (length ys)"
  by (induction ys) auto

lemma length_array_sort: "length (array_sort cmp xs) = length xs"
  unfolding array_sort_def by (induction xs) (simp_all add: length_insert_sorted)

text \<open>
  Both loops delete the keys of a prefix of the sorted snapshot: the first one of a
  prefix of the requested length, the second one of the prefix it walked through.
\<close>

lemma lru_loop_Normal:
  "n \<le> length es \<Longrightarrow>
   lru_loop es n s = Normal (s\<lparr>cache := filter (\<lambda>p. fst p \<notin> fst ` set (take n es)) (cache s),
                               stats := (stats s)\<lparr>evictions := evictions (stats s) + n\<rparr>\<rparr>)"
proof (induction es n s rule: lru_loop.induct)
  case (1 entries s)
  then show ?case by simp
next
  case (2 n s)
  then show ?case by simp
next
  case (3 e entries n s)
  then show ?case
    by (simp add: count_eviction_def delete_as_filter conj_commute cong: conj_cong)
qed

lemma pressure_loop_filter:
  "\<exists>m \<le> length es.
     pressure_loop es req freed s =
       s\<lparr>cache := filter (\<lambda>p. fst p \<notin> fst ` set (take m es)) (cache s),
         stats := (stats s)\<lparr>evictions := evictions (stats s) + m\<rparr>\<rparr>"
proof (induction es req freed s rule: pressure_loop.induct)
  case (1 req freed s)
  then show ?case by simp
next
  case (2 e es req freed s)
  let ?s1 = "count_eviction (s\<lparr>cache := AList.delete (fst e) (cache s)\<rparr>)"
  show ?case
  proof (cases "freed \<ge> req")
    case True
    then show ?thesis by (intro exI[of _ 0]) simp
  next
    case False
    with 2 obtain m where m: "m \<le> length es"
      "pressure_loop es req (freed + size_bytes (snd e)) ?s1 =
        ?s1\<lparr>cache := filter (\<lambda>p. fst p \<notin> fst ` set (take m es)) (cache ?s1),
            stats := (stats ?s1)\<lparr>evictions := evictions (stats ?s1) + m\<rparr>\<rparr>"
      by blast
    show ?thesis
      using False m
      by (intro exI[of _ "Suc m"])
         (simp add: count_eviction_def delete_as_filter conj_commute cong: conj_cong)
  qed
qed

lemma sorted_take_drop_le:
  assumes "sorted (map f xs)" "x \<in> set (take n xs)" "y \<in> set (drop n xs)"
  shows "f x \<le> f y"
proof -
  have "sorted (map f (take n xs) @ map f (drop n xs))"
    using assms(1) by (simp flip: map_append)
  then show ?thesis
    using assms(2,3) by (auto simp: sorted_append)
qed

lemma filter_keys_distinct:
  assumes "distinct (map fst c)" "set es = set c" "distinct es" "n \<le> length es"
  shows "set (filter (\<lambda>p. fst p \<notin> fst ` set (take n es)) c) = set (drop n es)"
    and "length (filter (\<lambda>p. fst p \<notin> fst ` set (take n es)) c) = length c - n"
proof -
  have inj: "inj_on fst (set c)"
    using assms(1) by (simp add: distinct_map)
  have dc: "distinct c"
    using assms(1) by (simp add: distinct_map)
  have mem: "fst p \<in> fst ` set (take n es) \<longleftrightarrow> p \<in> set (take n es)" if "p \<in> set c" for p
  proof
    assume "fst p \<in> fst ` set (take n es)"
    then obtain q where q: "q \<in> set (take n es)" "fst q = fst p" by auto
    then have "q \<in> set c" using assms(2) by (auto dest: in_set_takeD)
    with inj that q(2) have "q = p" by (auto dest: inj_onD)
    with q(1) show "p \<in> set (take n es)" by simp
  qed auto
  have split: "set es = set (take n es) \<union> set (drop n es)"
    by (metis append_take_drop_id set_append)
  have disj: "set (take n es) \<inter> set (drop n es) = {}"
    using assms(3) by (metis append_take_drop_id distinct_append)
  have "set (filter (\<lambda>p. fst p \<notin> fst ` set (take n es)) c) = set c - set (take n es)"
    using mem by auto
  also have "\<dots> = set (drop n es)"
    using split disj assms(2) by auto
  finally show s: "set (filter (\<lambda>p. fst p \<notin> fst ` set (take n es)) c) = set (drop n es)" .
  have "length (filter (\<lambda>p. fst p \<notin> fst ` set (take n es)) c)
      = card (set (filter (\<lambda>p. fst p \<notin> fst ` set (take n es)) c))"
    using dc by (metis distinct_card distinct_filter)
  also have "\<dots> = card (set (drop n es))" by (simp only: s)
  also have "\<dots> = length es - n"
    using assms(3) by (simp add: distinct_card)
  also have "length es = length c"
    using assms(2,3) dc by (metis distinct_card)
  finally show "length (filter (\<lambda>p. fst p \<notin> fst ` set (take n es)) c) = length c - n" .
qed

lemma evictLeastRecentlyUsed_Normal:
  assumes "cache s \<noteq> []"
  shows "evictLeastRecentlyUsed s =
     Normal (s\<lparr>cache := filter (\<lambda>p. fst p \<notin> fst ` set (take (max 1 (length (cache s) div 10))
                          (sort_key (\<lambda>a. lastAccessed (snd a)) (cache s)))) (cache s),
               stats := (stats s)\<lparr>evictions := evictions (stats s) + max 1 (length (cache s) div 10)\<rparr>\<rparr>)"
proof -
  have "max 1 (length (cache s) div 10) \<le> length (cache s)"
    using assms by (cases "cache s") auto
  then show ?thesis
    by (simp add: evictLeastRecentlyUsed_def array_sort_key Let_def lru_loop_Normal)
qed

lemma evictByMemoryPressure_filter:
  "\<exists>K m. evictByMemoryPressure req s =
       s\<lparr>cache := filter (\<lambda>p. fst p \<notin> K) (cache s),
         stats := (stats s)\<lparr>evictions := evictions (stats s) + m\<rparr>\<rparr>"
  unfolding evictByMemoryPressure_def Let_def
  using pressure_loop_filter by blast

lemma evictLeastRecentlyUsed_fields:
  assumes "cache s \<noteq> []"
  shows "\<exists>s1. evictLeastRecentlyUsed s = Normal s1
          \<and> cache s1 = filter (\<lambda>p. fst p \<notin> fst ` set (take (max 1 (length (cache s) div 10))
                          (sort_key (\<lambda>a. lastAccessed (snd a)) (cache s)))) (cache s)
          \<and> evictions (stats s1) = evictions (stats s) + max 1 (length (cache s) div 10)
          \<and> config s1 = config s"
  by (simp add: evictLeastRecentlyUsed_Normal [OF assms])

lemma evictByMemoryPressure_fields:
  "\<exists>K m. cache (evictByMemoryPressure req s) = filter (\<lambda>p. fst p \<notin> K) (cache s)
        \<and> evictions (stats (evictByMemoryPressure req s)) = evictions (stats s) + m
        \<and> config (evictByMemoryPressure req s) = config s"
proof -
  obtain K m where "evictByMemoryPressure req s =
       s\<lparr>cache := filter (\<lambda>p. fst p \<notin> K) (cache s),
         stats := (stats s)\<lparr>evictions := evictions (stats s) + m\<rparr>\<rparr>"
    using evictByMemoryPressure_filter by blast
  then show ?thesis
    by (intro exI[of _ K] exI[of _ m]) simp
qed

lemma ensureSpace_at_capacity:
  assumes "cache s \<noteq> []" and "length (cache s) \<ge> maxSize (config s)"
  shows "\<exists>s2 K m. ensureSpace sz s = Normal s2
          \<and> cache s2 = filter (\<lambda>p. fst p \<notin> K)
               (filter (\<lambda>p. fst p \<notin> fst ` set (take (max 1 (length (cache s) div 10))
                          (sort_key (\<lambda>a. lastAccessed (snd a)) (cache s)))) (cache s))
          \<and> evictions (stats s2) = evictions (stats s) + max 1 (length (cache s) div 10) + m
          \<and> config s2 = config s"
proof -
  obtain s1 where s1: "evictLeastRecentlyUsed s = Normal s1"
      "cache s1 = filter (\<lambda>p. fst p \<notin> fst ` set (take (max 1 (length (cache s) div 10))
                          (sort_key (\<lambda>a. lastAccessed (snd a)) (cache s)))) (cache s)"
      "evictions (stats s1) = evictions (stats s) + max 1 (length (cache s) div 10)"
      "config s1 = config s"
    using evictLeastRecentlyUsed_fields [OF assms(1)] by blast
  have es: "ensureSpace sz s =
      Normal (if getCurrentMemoryUsage s1 + sz > maxMemoryBytes (config s1)
              then evictByMemoryPressure sz s1 else s1)"
    using assms(2) by (simp add: ensureSpace_def s1(1))
  show ?thesis
  proof (cases "getCurrentMemoryUsage s1 + sz > maxMemoryBytes (config s1)")
    case True
    obtain K m where km: "cache (evictByMemoryPressure sz s1) = filter (\<lambda>p. fst p \<notin> K) (cache s1)"
        "evictions (stats (evictByMemoryPressure sz s1)) = evictions (stats s1) + m"
        "config (evictByMemoryPressure sz s1) = config s1"
      using evictByMemoryPressure_fields by blast
    have "ensureSpace sz s = Normal (evictByMemoryPressure sz s1)"
      using es True by simp
    then show ?thesis
      using km s1(2,3,4) by (intro exI[of _ "evictByMemoryPressure sz s1"] exI[of _ K] exI[of _ m]) simp
  next
    case False
    have "ensureSpace sz s = Normal s1"
      using es False by simp
    then show ?thesis
      using s1(2,3,4) by (intro exI[of _ s1] exI[of _ "{}"] exI[of _ 0]) simp
  qed
qed


lemma lru_prefix_facts:
  assumes "distinct (map fst c)" and "c \<noteq> []"
  defines "n \<equiv> max 1 (length c div 10)"
  defines "es \<equiv> sort_key (\<lambda>a. lastAccessed (snd a)) c"
  defines "c1 \<equiv> filter (\<lambda>p. fst p \<notin> fst ` set (take n es)) c"
  shows "length c1 = length c - n" and "1 \<le> n" and "n \<le> length c"
    and "set c1 \<subseteq> set c"
    and "\<forall>r \<in> set c - set c1. \<forall>k \<in> set c1. lastAccessed (snd r) \<le> lastAccessed (snd k)"
    and "hd es \<in> set c" and "fst (hd es) \<notin> fst ` set c1"
    and "\<forall>e \<in> set c. lastAccessed (snd (hd es)) \<le> lastAccessed (snd e)"
proof -
  show n1: "1 \<le> n" by (simp add: n_def)
  show nle: "n \<le> length c"
    using assms(2) by (cases c) (auto simp: n_def)
  have nes: "n \<le> length es" using nle by (simp add: es_def)
  have dist: "distinct es"
    using assms(1) by (simp add: es_def distinct_map)
  have sets: "set es = set c" by (simp add: es_def)
  have st: "set c1 = set (drop n es)"
    unfolding c1_def by (rule filter_keys_distinct(1) [OF assms(1) sets dist nes])
  show "length c1 = length c - n"
    unfolding c1_def by (rule filter_keys_distinct(2) [OF assms(1) sets dist nes])
  show "set c1 \<subseteq> set c" by (auto simp: c1_def)
  have split: "set c = set (take n es) \<union> set (drop n es)"
    by (metis append_take_drop_id set_append sets)
  have sorted: "sorted (map (\<lambda>a. lastAccessed (snd a)) es)"
    by (simp add: es_def)
  show "\<forall>r \<in> set c - set c1. \<forall>k \<in> set c1. lastAccessed (snd r) \<le> lastAccessed (snd k)"
  proof (intro ballI)
    fix r k assume "r \<in> set c - set c1" "k \<in> set c1"
    then have "r \<in> set (take n es)" "k \<in> set (drop n es)"
      using split st by auto
    then show "lastAccessed (snd r) \<le> lastAccessed (snd k)"
      using sorted_take_drop_le [OF sorted] by blast
  qed
  have ne: "es \<noteq> []" using assms(2) sets by auto
  have "hd es \<in> set es" using ne by (rule hd_in_set)
  then show "hd es \<in> set c" by (simp only: sets)
  obtain m where m: "n = Suc m"
    using n1 by (cases n) auto
  have hd_take: "hd es \<in> set (take n es)"
    by (simp add: m take_Suc [OF ne])
  then show "fst (hd es) \<notin> fst ` set c1"
    unfolding c1_def by force
  show "\<forall>e \<in> set c. lastAccessed (snd (hd es)) \<le> lastAccessed (snd e)"
  proof
    fix e assume "e \<in> set c"
    then have "e \<in> set (hd es # tl es)" using sets ne by simp
    moreover have "sorted (map (\<lambda>a. lastAccessed (snd a)) (hd es # tl es))"
      using sorted ne by simp
    ultimately show "lastAccessed (snd (hd es)) \<le> lastAccessed (snd e)"
      by auto
  qed
qed

lemma length_update:
  "length (AList.update k v al) = (if k \<in> fst ` set al then length al else Suc (length al))"
  by (induction al) auto

lemma length_eq_card_keys:
  "distinct (map fst c) \<Longrightarrow> length c = card (fst ` set c)"
  using distinct_card [of "map fst c"] by simp

lemmas cache_defs = set_cache_def ensureSpace_def estimateSize_def getCurrentMemoryUsage_def
  maxMemoryBytes_def get_def isExpired_def
  count_hit_def count_miss_def count_eviction_def evictLeastRecentlyUsed_def array_sort_def
  evictByMemoryPressure_def

lemma scenarioB_run:
  assumes "t2 - t0 \<le> 300000"
  shows "scenarioB t0 t1 t2 t3 =
     (if t1 < t2
      then stateB [(''a'', entryB ''a'' 1 t0 2 t2), (''c'', entryB ''c'' 3 t3 1 t3)] 1 1
      else stateB [(''b'', entryB ''b'' 2 t1 1 t1), (''c'', entryB ''c'' 3 t3 1 t3)] 1 1)"
proof -
  have s0: "new_CacheManager (DEFAULT_CACHE_CONFIG\<lparr>maxSize := 2\<rparr>) = stateB [] 0 0"
    by (simp add: new_CacheManager_def stateB_def)
  have s1: "state_of (set_cache stringify_digit t0 ''a'' 1 None (stateB [] 0 0))
      = stateB [(''a'', entryB ''a'' 1 t0 1 t0)] 0 0"
    by (simp add: stateB_def entryB_def stringify_digit_def cache_defs DEFAULT_CACHE_CONFIG_def)
  have s2: "state_of (set_cache stringify_digit t1 ''b'' 2 None
                (stateB [(''a'', entryB ''a'' 1 t0 1 t0)] 0 0))
      = stateB [(''a'', entryB ''a'' 1 t0 1 t0), (''b'', entryB ''b'' 2 t1 1 t1)] 0 0"
    by (simp add: stateB_def entryB_def stringify_digit_def cache_defs DEFAULT_CACHE_CONFIG_def)
  have s3: "snd (get t2 ''a''
                (stateB [(''a'', entryB ''a'' 1 t0 1 t0), (''b'', entryB ''b'' 2 t1 1 t1)] 0 0))
      = stateB [(''a'', entryB ''a'' 1 t0 2 t2), (''b'', entryB ''b'' 2 t1 1 t1)] 1 0"
    using assms by (simp add: stateB_def entryB_def cache_defs)
  have s4: "state_of (set_cache stringify_digit t3 ''c'' 3 None
                (stateB [(''a'', entryB ''a'' 1 t0 2 t2), (''b'', entryB ''b'' 2 t1 1 t1)] 1 0))
      = (if t1 < t2
         then stateB [(''a'', entryB ''a'' 1 t0 2 t2), (''c'', entryB ''c'' 3 t3 1 t3)] 1 1
         else stateB [(''b'', entryB ''b'' 2 t1 1 t1), (''c'', entryB ''c'' 3 t3 1 t3)] 1 1)"
    by (simp add: stateB_def entryB_def stringify_digit_def cache_defs DEFAULT_CACHE_CONFIG_def)
  show ?thesis
    by (simp only: scenarioB_def Let_def s0 s1 s2 s3 s4)
qed

section \<open>Facts about the two limits\<close>

lemma foldl_add_sum: "foldl (\<lambda>sum e. sum + f e) a xs = a + sum_list (map f xs)" for a :: nat
  by (induction xs arbitrary: a) simp_all

lemma getCurrentMemoryUsage_mem: "getCurrentMemoryUsage s = mem (cache s)"
  by (simp add: getCurrentMemoryUsage_def mem_def foldl_add_sum)

lemma mem_filter_le: "mem (filter P c) \<le> mem c"
  by (induction c) (simp_all add: mem_def)

lemma mem_delete_le: "mem (AList.delete k c) \<le> mem c"
  by (simp add: delete_as_filter mem_filter_le)

lemma mem_delete:
  "distinct (map fst c) \<Longrightarrow> (k, e) \<in> set c \<Longrightarrow> mem (AList.delete k c) + size_bytes e = mem c"
proof (induction c)
  case Nil
  then show ?case by simp
next
  case (Cons p c)
  show ?case
  proof (cases "fst p = k")
    case True
    then have "k \<notin> fst ` set c" using Cons.prems(1) by auto
    then have "AList.delete k c = c" by (rule AList.delete_id)
    moreover have "p = (k, e)"
      using True Cons.prems \<open>k \<notin> fst ` set c\<close> by (cases p) (auto intro: rev_image_eqI)
    ultimately show ?thesis by (simp add: mem_def delete_as_filter)
  next
    case False
    then have "(k, e) \<in> set c" using Cons.prems(2) by auto
    then have "mem (AList.delete k c) + size_bytes e = mem c"
      using Cons.IH Cons.prems(1) by simp
    then show ?thesis using False by (simp add: mem_def delete_as_filter)
  qed
qed

lemma mem_update_le: "mem (AList.update k e c) \<le> mem c + size_bytes e"
  by (induction c) (simp_all add: mem_def)


lemma pressure_loop_cache:
  "set (cache (pressure_loop es req freed s)) \<subseteq> set (cache s)
   \<and> mem (cache (pressure_loop es req freed s)) \<le> mem (cache s)
   \<and> (distinct (map fst (cache s)) \<longrightarrow> distinct (map fst (cache (pressure_loop es req freed s))))
   \<and> length (cache (pressure_loop es req freed s)) \<le> length (cache s)
   \<and> config (pressure_loop es req freed s) = config s"
proof -
  obtain m where "pressure_loop es req freed s =
       s\<lparr>cache := filter (\<lambda>p. fst p \<notin> fst ` set (take m es)) (cache s),
         stats := (stats s)\<lparr>evictions := evictions (stats s) + m\<rparr>\<rparr>"
    using pressure_loop_filter by blast
  then show ?thesis
    by (simp add: mem_filter_le distinct_map_filter)
qed

lemma pressure_loop_frees:
  assumes "distinct (map fst (cache s))" and "set es \<subseteq> set (cache s)" and "distinct es"
  shows "req \<le> freed + (mem (cache s) - mem (cache (pressure_loop es req freed s)))
       \<or> set es \<inter> set (cache (pressure_loop es req freed s)) = {}"
  using assms
proof (induction es req freed s rule: pressure_loop.induct)
  case (1 req freed s)
  then show ?case by simp
next
  case (2 e es req freed s)
  show ?case
  proof (cases "freed \<ge> req")
    case True
    then show ?thesis by simp
  next
    case False
    define s1 where "s1 = count_eviction (s\<lparr>cache := AList.delete (fst e) (cache s)\<rparr>)"
    define s' where "s' = pressure_loop es req (freed + size_bytes (snd e)) s1"
    have run: "pressure_loop (e # es) req freed s = s'"
      using False by (simp add: s'_def s1_def)
    have c1: "cache s1 = AList.delete (fst e) (cache s)"
      by (simp add: s1_def count_eviction_def)
    have ein: "(fst e, snd e) \<in> set (cache s)"
      using "2.prems"(2) by simp
    have inj: "inj_on fst (set (cache s))"
      using "2.prems"(1) by (simp add: distinct_map)
    have d1: "distinct (map fst (cache s1))"
      using "2.prems"(1) by (simp add: c1 AList.distinct_delete)
    have sub1: "set es \<subseteq> set (cache s1)"
    proof
      fix x assume x: "x \<in> set es"
      then have xin: "x \<in> set (cache s)" using "2.prems"(2) by auto
      have "x \<noteq> e" using x "2.prems"(3) by auto
      then have "fst x \<noteq> fst e"
        using inj xin ein by (auto dest: inj_onD)
      then show "x \<in> set (cache s1)"
        using xin by (simp add: c1 delete_as_filter)
    qed
    have des: "distinct es" using "2.prems"(3) by simp
    have ih: "req \<le> freed + size_bytes (snd e) + (mem (cache s1) - mem (cache s'))
            \<or> set es \<inter> set (cache s') = {}"
      unfolding s'_def s1_def
      using "2.IH" [OF False d1 [unfolded s1_def] sub1 [unfolded s1_def] des] .
    have m1: "mem (cache s1) + size_bytes (snd e) = mem (cache s)"
      unfolding c1 using "2.prems"(1) ein by (rule mem_delete)
    have le: "mem (cache s') \<le> mem (cache s1)" and sub': "set (cache s') \<subseteq> set (cache s1)"
      unfolding s'_def using pressure_loop_cache by blast+
    have enot: "e \<notin> set (cache s1)"
      by (auto simp: c1 delete_as_filter)
    from ih show ?thesis
    proof
      assume "req \<le> freed + size_bytes (snd e) + (mem (cache s1) - mem (cache s'))"
      then have "req \<le> freed + (mem (cache s) - mem (cache s'))"
        using m1 le by linarith
      then show ?thesis unfolding run by simp
    next
      assume "set es \<inter> set (cache s') = {}"
      moreover have "e \<notin> set (cache s')" using enot sub' by blast
      ultimately show ?thesis unfolding run by simp
    qed
  qed
qed


lemma subset_disjoint_empty: "A \<subseteq> B \<Longrightarrow> B \<inter> A = {} \<Longrightarrow> A = {}"
  by blast

lemma distinct_insert_sorted:
  "distinct (insert_sorted cmp x ys) \<longleftrightarrow> x \<notin> set ys \<and> distinct ys"
  by (induction ys) (auto simp: set_insert_sorted)

lemma distinct_array_sort: "distinct xs \<Longrightarrow> distinct (array_sort cmp xs)"
proof (induction xs)
  case Nil
  then show ?case by (simp add: array_sort_def)
next
  case (Cons x xs)
  then have "distinct (array_sort cmp xs)" "x \<notin> set (array_sort cmp xs)"
    by (simp_all add: set_array_sort)
  then show ?case
    by (simp add: array_sort_def distinct_insert_sorted)
qed

lemma evictByMemoryPressure_budget:
  assumes "distinct (map fst (cache s))"
  shows "(mem (cache (evictByMemoryPressure req s)) + req \<le> mem (cache s)
          \<or> cache (evictByMemoryPressure req s) = [])
       \<and> distinct (map fst (cache (evictByMemoryPressure req s)))
       \<and> length (cache (evictByMemoryPressure req s)) \<le> length (cache s)
       \<and> config (evictByMemoryPressure req s) = config s"
proof -
  define es where "es = array_sort
            (\<lambda>a b. (int (size_bytes (snd b)) - int (size_bytes (snd a)))
                  + (int (accessCount (snd a)) - int (accessCount (snd b)))) (cache s)"
  define s' where "s' = pressure_loop es req 0 s"
  have run: "evictByMemoryPressure req s = s'"
    by (simp add: evictByMemoryPressure_def Let_def es_def s'_def)
  have ses: "set es = set (cache s)" by (simp add: es_def set_array_sort)
  have des: "distinct es"
    unfolding es_def using assms by (intro distinct_array_sort) (simp add: distinct_map)
  have facts: "set (cache s') \<subseteq> set (cache s)" "mem (cache s') \<le> mem (cache s)"
      "distinct (map fst (cache s'))" "length (cache s') \<le> length (cache s)"
      "config s' = config s"
    unfolding s'_def using pressure_loop_cache [of es req 0 s] assms by simp_all
  have "req \<le> 0 + (mem (cache s) - mem (cache s')) \<or> set es \<inter> set (cache s') = {}"
    unfolding s'_def using assms _ des by (rule pressure_loop_frees) (simp add: ses)
  then have "mem (cache s') + req \<le> mem (cache s) \<or> cache s' = []"
  proof
    assume "req \<le> 0 + (mem (cache s) - mem (cache s'))"
    then show ?thesis using facts(2) by linarith
  next
    assume disj: "set es \<inter> set (cache s') = {}"
    have sub: "set (cache s') \<subseteq> set es" using facts(1) by (simp only: ses)
    have "set (cache s') = {}" using sub disj by (rule subset_disjoint_empty)
    then show ?thesis by simp
  qed
  then show ?thesis
    unfolding run using facts(3,4,5) by simp
qed

lemma ensureSpace_budget:
  assumes "within_budget s" and "z \<le> maxMemoryBytes (config s)"
  shows "case ensureSpace z s of
           Thrown e s1 \<Rightarrow> s1 = s
         | Normal s2 \<Rightarrow> distinct (map fst (cache s2)) \<and> length (cache s2) < maxSize (config s)
              \<and> mem (cache s2) + z \<le> maxMemoryBytes (config s) \<and> config s2 = config s"
proof -
  have d: "distinct (map fst (cache s))" and l: "length (cache s) \<le> maxSize (config s)"
    and m: "mem (cache s) \<le> maxMemoryBytes (config s)"
    using assms(1) by (simp_all add: within_budget_def getCurrentMemoryUsage_mem)
  have after: "case ensureSpace z s of
           Thrown e s1 \<Rightarrow> s1 = s
         | Normal s2 \<Rightarrow> distinct (map fst (cache s2)) \<and> length (cache s2) < maxSize (config s)
              \<and> mem (cache s2) + z \<le> maxMemoryBytes (config s) \<and> config s2 = config s"
    if s1: "distinct (map fst (cache s1))" "length (cache s1) < maxSize (config s)"
       "mem (cache s1) \<le> maxMemoryBytes (config s)" "config s1 = config s"
       and es: "ensureSpace z s =
          Normal (if getCurrentMemoryUsage s1 + z > maxMemoryBytes (config s1)
                  then evictByMemoryPressure z s1 else s1)" for s1
  proof (cases "getCurrentMemoryUsage s1 + z > maxMemoryBytes (config s1)")
    case True
    note b = evictByMemoryPressure_budget [OF s1(1), of z]
    have "mem (cache (evictByMemoryPressure z s1)) + z \<le> mem (cache s1)
          \<or> cache (evictByMemoryPressure z s1) = []"
      using b by (rule conjunct1)
    then have "mem (cache (evictByMemoryPressure z s1)) + z \<le> maxMemoryBytes (config s)"
    proof
      assume "mem (cache (evictByMemoryPressure z s1)) + z \<le> mem (cache s1)"
      then show ?thesis using s1(3) by (rule le_trans)
    next
      assume "cache (evictByMemoryPressure z s1) = []"
      then show ?thesis using assms(2) by (simp add: mem_def)
    qed
    then show ?thesis
      using True es b s1(2,4) by simp
  next
    case False
    then show ?thesis
      using es s1 by (simp add: getCurrentMemoryUsage_mem)
  qed
  show ?thesis
  proof (cases "length (cache s) \<ge> maxSize (config s)")
    case False
    then have "ensureSpace z s =
          Normal (if getCurrentMemoryUsage s + z > maxMemoryBytes (config s)
                  then evictByMemoryPressure z s else s)"
      by (simp add: ensureSpace_def)
    then show ?thesis
      using after [of s] d m False by simp
  next
    case True
    show ?thesis
    proof (cases "cache s = []")
      case True
      then have "evictLeastRecentlyUsed s = Thrown TypeError s"
        by (simp add: evictLeastRecentlyUsed_def array_sort_def)
      then show ?thesis
        using \<open>maxSize (config s) \<le> length (cache s)\<close> by (simp add: ensureSpace_def)
    next
      case False
      obtain s1 where s1: "evictLeastRecentlyUsed s = Normal s1"
          "cache s1 = filter (\<lambda>p. fst p \<notin> fst ` set (take (max 1 (length (cache s) div 10))
                          (sort_key (\<lambda>a. lastAccessed (snd a)) (cache s)))) (cache s)"
          "config s1 = config s"
        using evictLeastRecentlyUsed_fields [OF False] by blast
      note f = lru_prefix_facts [OF d False, folded s1(2)]
      have "length (cache s1) < maxSize (config s)"
        using f(1,2,3) l by linarith
      moreover have "mem (cache s1) \<le> maxMemoryBytes (config s)"
        using m mem_filter_le [of _ "cache s"] by (simp only: s1(2)) (rule le_trans)
      moreover have "distinct (map fst (cache s1))"
        using d by (simp add: s1(2) distinct_map_filter)
      moreover have "ensureSpace z s =
          Normal (if getCurrentMemoryUsage s1 + z > maxMemoryBytes (config s1)
                  then evictByMemoryPressure z s1 else s1)"
        using True by (simp add: ensureSpace_def s1(1))
      ultimately show ?thesis
        using after [of s1] s1(3) by simp
    qed
  qed
qed

lemma ensureSpace_count:
  assumes "within_count s"
  shows "case ensureSpace z s of
           Thrown e s1 \<Rightarrow> s1 = s
         | Normal s2 \<Rightarrow> distinct (map fst (cache s2)) \<and> length (cache s2) < maxSize (config s)
              \<and> config s2 = config s"
proof -
  have d: "distinct (map fst (cache s))" and l: "length (cache s) \<le> maxSize (config s)"
    using assms by (simp_all add: within_count_def)
  have after: "case ensureSpace z s of
           Thrown e s1 \<Rightarrow> s1 = s
         | Normal s2 \<Rightarrow> distinct (map fst (cache s2)) \<and> length (cache s2) < maxSize (config s)
              \<and> config s2 = config s"
    if s1: "distinct (map fst (cache s1))" "length (cache s1) < maxSize (config s)"
       "config s1 = config s"
       and es: "ensureSpace z s =
          Normal (if getCurrentMemoryUsage s1 + z > maxMemoryBytes (config s1)
                  then evictByMemoryPressure z s1 else s1)" for s1
  proof (cases "getCurrentMemoryUsage s1 + z > maxMemoryBytes (config s1)")
    case True
    note b = evictByMemoryPressure_budget [OF s1(1), of z]
    show ?thesis
      using True es b s1(2,3) by simp
  next
    case False
    then show ?thesis
      using es s1 by simp
  qed
  show ?thesis
  proof (cases "length (cache s) \<ge> maxSize (config s)")
    case False
    then have "ensureSpace z s =
          Normal (if getCurrentMemoryUsage s + z > maxMemoryBytes (config s)
                  then evictByMemoryPressure z s else s)"
      by (simp add: ensureSpace_def)
    then show ?thesis
      using after [of s] d False by simp
  next
    case True
    show ?thesis
    proof (cases "cache s = []")
      case True
      then have "evictLeastRecentlyUsed s = Thrown TypeError s"
        by (simp add: evictLeastRecentlyUsed_def array_sort_def)
      then show ?thesis
        using \<open>maxSize (config s) \<le> length (cache s)\<close> by (simp add: ensureSpace_def)
    next
      case False
      obtain s1 where s1: "evictLeastRecentlyUsed s = Normal s1"
          "cache s1 = filter (\<lambda>p. fst p \<notin> fst ` set (take (max 1 (length (cache s) div 10))
                          (sort_key (\<lambda>a. lastAccessed (snd a)) (cache s)))) (cache s)"
          "config s1 = config s"
        using evictLeastRecentlyUsed_fields [OF False] by blast
      note f = lru_prefix_facts [OF d False, folded s1(2)]
      have "length (cache s1) < maxSize (config s)"
        using f(1,2,3) l by linarith
      moreover have "distinct (map fst (cache s1))"
        using d by (simp add: s1(2) distinct_map_filter)
      moreover have "ensureSpace z s =
          Normal (if getCurrentMemoryUsage s1 + z > maxMemoryBytes (config s1)
                  then evictByMemoryPressure z s1 else s1)"
        using True by (simp add: ensureSpace_def s1(1))
      ultimately show ?thesis
        using after [of s1] s1(3) by simp
    qed
  qed
qed

lemma set_keeps_count:
  assumes "within_count s"
  shows "within_count (state_of (set_cache stringify now k v ttl_arg s))
       \<and> config (state_of (set_cache stringify now k v ttl_arg s)) = config s"
proof (cases "ensureSpace (estimateSize stringify v) s")
  case (Thrown e s1)
  then have "s1 = s" using ensureSpace_count [OF assms, of "estimateSize stringify v"] by simp
  then show ?thesis
    using Thrown assms by (simp add: set_cache_def Let_def)
next
  case (Normal s2)
  then have s2: "distinct (map fst (cache s2))" "length (cache s2) < maxSize (config s)"
      "config s2 = config s"
    using ensureSpace_count [OF assms, of "estimateSize stringify v"] by simp_all
  show ?thesis
    using s2 by (simp add: set_cache_def Let_def Normal within_count_def AList.distinct_update
          length_update)
qed

lemma set_keeps_budget:
  assumes "within_budget s" and "estimateSize stringify v \<le> maxMemoryBytes (config s)"
  shows "within_budget (state_of (set_cache stringify now k v ttl_arg s))
       \<and> config (state_of (set_cache stringify now k v ttl_arg s)) = config s"
proof (cases "ensureSpace (estimateSize stringify v) s")
  case (Thrown e s1)
  then have "s1 = s" using ensureSpace_budget [OF assms] by simp
  then show ?thesis
    using Thrown assms(1) by (simp add: set_cache_def Let_def)
next
  case (Normal s2)
  then have s2: "distinct (map fst (cache s2))" "length (cache s2) < maxSize (config s)"
      "mem (cache s2) + estimateSize stringify v \<le> maxMemoryBytes (config s)"
      "config s2 = config s"
    using ensureSpace_budget [OF assms] by simp_all
  define entry where "entry = \<lparr>key = k, val = v, timestamp = now,
      ttl = (case ttl_arg of None \<Rightarrow> defaultTtl (config s)
                            | Some t \<Rightarrow> if t = 0 then defaultTtl (config s) else t),
      accessCount = 1, lastAccessed = now, size_bytes = estimateSize stringify v\<rparr>"
  have run: "state_of (set_cache stringify now k v ttl_arg s)
      = s2\<lparr>cache := AList.update k entry (cache s2)\<rparr>"
    by (simp add: set_cache_def Let_def Normal entry_def)
  have "mem (AList.update k entry (cache s2)) \<le> mem (cache s2) + size_bytes entry"
    by (rule mem_update_le)
  then have "mem (AList.update k entry (cache s2)) \<le> maxMemoryBytes (config s)"
    using s2(3) by (simp add: entry_def)
  then show ?thesis
    unfolding run using s2(1,2,4)
    by (simp add: within_budget_def getCurrentMemoryUsage_mem AList.distinct_update length_update)
qed

lemma run_sets_count:
  "within_count s \<Longrightarrow>
   within_count (run_sets stringify calls s) \<and> config (run_sets stringify calls s) = config s"
proof (induction calls arbitrary: s)
  case Nil
  then show ?case by simp
next
  case (Cons call calls)
  obtain now k v ttl_arg where call: "call = (now, k, v, ttl_arg)"
    by (cases call) auto
  note step = set_keeps_count [OF Cons.prems, of stringify now k v ttl_arg]
  show ?case
    using Cons.IH [of "state_of (set_cache stringify now k v ttl_arg s)"] step
    by (simp add: call)
qed

lemma run_sets_budget:
  "within_budget s \<Longrightarrow>
   \<forall>call \<in> set calls. estimateSize stringify (fst (snd (snd call))) \<le> maxMemoryBytes (config s) \<Longrightarrow>
   within_budget (run_sets stringify calls s) \<and> config (run_sets stringify calls s) = config s"
proof (induction calls arbitrary: s)
  case Nil
  then show ?case by simp
next
  case (Cons call calls)
  obtain now k v ttl_arg where call: "call = (now, k, v, ttl_arg)"
    by (cases call) auto
  have fits: "estimateSize stringify v \<le> maxMemoryBytes (config s)"
    using Cons.prems(2) by (simp add: call)
  note step = set_keeps_budget [OF Cons.prems(1) fits, of now k ttl_arg]
  have rest: "\<forall>call \<in> set calls. estimateSize stringify (fst (snd (snd call)))
      \<le> maxMemoryBytes (config (state_of (set_cache stringify now k v ttl_arg s)))"
    using Cons.prems(2) step by simp
  show ?case
    using Cons.IH [OF conjunct1 [OF step] rest] step
    by (simp add: call)
qed

lemma new_within_count: "within_count (new_CacheManager cfg)"
  by (simp add: within_count_def new_CacheManager_def)

lemma new_within_budget: "within_budget (new_CacheManager cfg)"
  by (simp add: within_budget_def new_CacheManager_def getCurrentMemoryUsage_def)

lemma config_new: "config (new_CacheManager cfg) = cfg"
  by (simp add: new_CacheManager_def)

lemmas run_sets_count_new = run_sets_count [OF new_within_count, unfolded config_new]

lemmas run_sets_budget_new = run_sets_budget [OF new_within_budget, unfolded config_new]

section \<open>Reading the cache\<close>

text \<open>
  C3. A \<open>get\<close> of an entry whose age exceeds its TTL returns nothing, removes the entry
  (and no other) and counts a miss, whether or not \<open>cleanup\<close> ever ran; a \<open>get\<close> of a
  present entry that has not expired returns its value and counts a hit.
\<close>

theorem get_ttl_expiry:
  assumes "map_of (cache s) k = Some entry"
  shows "fst (get now k s) = (if now - timestamp entry > ttl entry then None else Some (val entry))
       \<and> misses (stats (snd (get now k s))) =
           (if now - timestamp entry > ttl entry then misses (stats s) + 1 else misses (stats s))
       \<and> hits (stats (snd (get now k s))) =
           (if now - timestamp entry > ttl entry then hits (stats s) else hits (stats s) + 1)
       \<and> map_of (cache (snd (get now k s))) =
           (if now - timestamp entry > ttl entry then (map_of (cache s))(k := None)
            else (map_of (cache s))
                   (k \<mapsto> entry\<lparr>accessCount := accessCount entry + 1, lastAccessed := now\<rparr>))"
  using assms
  by (simp add: get_def isExpired_def count_miss_def count_hit_def
        AList.delete_conv' AList.update_conv')

text \<open>
  Scenario A of the specification: an entry stored at time 0 with a TTL of 1000 ms is
  returned by a \<open>get\<close> at time 0 and is absent, and gone, for a \<open>get\<close> at time 1100.
\<close>

theorem get_ttl_expiry_witness:
  "map_of (cache scenarioA) ''doc:1'' = Some scenarioA_entry
   \<and> fst (get 0 ''doc:1'' scenarioA) = Some ''hello''
   \<and> hits (stats (snd (get 0 ''doc:1'' scenarioA))) = 1
   \<and> fst (get 1100 ''doc:1'' scenarioA) = None
   \<and> misses (stats (snd (get 1100 ''doc:1'' scenarioA))) = 1
   \<and> map_of (cache (snd (get 1100 ''doc:1'' scenarioA))) ''doc:1'' = None"
  using get_ttl_expiry [of scenarioA "''doc:1''" scenarioA_entry 0]
        get_ttl_expiry [of scenarioA "''doc:1''" scenarioA_entry 1100]
  by (simp add: scenarioA_def scenarioA_entry_def set_cache_def ensureSpace_def
        estimateSize_def getCurrentMemoryUsage_def maxMemoryBytes_def
        new_CacheManager_def DEFAULT_CACHE_CONFIG_def stringify_text_def)

text \<open>
  C9. \<open>has\<close> answers whether the key holds an entry that has not expired, and hands the
  manager back as it was: no counter, no access statistic and no entry changes, also
  when the entry it looked at has expired.
\<close>

theorem has_observes_only:
  "snd (has now k s) = s \<and>
   (fst (has now k s) \<longleftrightarrow> (\<exists>entry. map_of (cache s) k = Some entry \<and> now - timestamp entry \<le> ttl entry))"
  by (auto simp: has_def isExpired_def split: option.splits)

section \<open>Eviction under count pressure\<close>

text \<open>
  C4, as the code has it. When an insertion finds the cache at or over \<open>maxSize\<close>,
  \<open>evictLeastRecentlyUsed\<close> runs first and removes \<open>max 1 (n div 10)\<close> of the \<open>n\<close>
  entries; every entry it removes was last accessed no later than every entry it keeps
  (entries with equal \<open>lastAccessed\<close> go in insertion order). In Scenario B, with
  \<open>maxSize = 2\<close>: if the clock reading of \<open>get("a")\<close> is later than that of
  \<open>set("b")\<close> and "a" has not expired by then, the last \<open>set\<close> evicts "b", and "a" and
  "c" remain.
\<close>

theorem lru_count_eviction:
  assumes "distinct (map fst (cache s))" and "cache s \<noteq> []"
    and "length (cache s) \<ge> maxSize (config s)"
  shows "(\<exists>s1. evictLeastRecentlyUsed s = Normal s1
          \<and> ensureSpace sz s =
              Normal (if getCurrentMemoryUsage s1 + sz > maxMemoryBytes (config s1)
                      then evictByMemoryPressure sz s1 else s1)
          \<and> length (cache s1) = length (cache s) - max 1 (length (cache s) div 10)
          \<and> evictions (stats s1) = evictions (stats s) + max 1 (length (cache s) div 10)
          \<and> set (cache s1) \<subseteq> set (cache s)
          \<and> (\<forall>r \<in> set (cache s) - set (cache s1). \<forall>k \<in> set (cache s1).
                lastAccessed (snd r) \<le> lastAccessed (snd k)))
       \<and> (t1 < t2 \<and> t2 - t0 \<le> 300000 \<longrightarrow>
             map fst (cache (scenarioB t0 t1 t2 t3)) = [''a'', ''c''])"
proof -
  obtain s1 where s1: "evictLeastRecentlyUsed s = Normal s1"
      "cache s1 = filter (\<lambda>p. fst p \<notin> fst ` set (take (max 1 (length (cache s) div 10))
                          (sort_key (\<lambda>a. lastAccessed (snd a)) (cache s)))) (cache s)"
      "evictions (stats s1) = evictions (stats s) + max 1 (length (cache s) div 10)"
    using evictLeastRecentlyUsed_fields [OF assms(2)] by blast
  have es: "ensureSpace sz s =
      Normal (if getCurrentMemoryUsage s1 + sz > maxMemoryBytes (config s1)
              then evictByMemoryPressure sz s1 else s1)"
    using assms(3) by (simp add: ensureSpace_def s1(1))
  note f = lru_prefix_facts [OF assms(1,2), folded s1(2)]
  have general: "\<exists>s1. evictLeastRecentlyUsed s = Normal s1
          \<and> ensureSpace sz s =
              Normal (if getCurrentMemoryUsage s1 + sz > maxMemoryBytes (config s1)
                      then evictByMemoryPressure sz s1 else s1)
          \<and> length (cache s1) = length (cache s) - max 1 (length (cache s) div 10)
          \<and> evictions (stats s1) = evictions (stats s) + max 1 (length (cache s) div 10)
          \<and> set (cache s1) \<subseteq> set (cache s)
          \<and> (\<forall>r \<in> set (cache s) - set (cache s1). \<forall>k \<in> set (cache s1).
                lastAccessed (snd r) \<le> lastAccessed (snd k))"
    using s1(1,3) es f(1,4,5) by (intro exI[of _ s1] conjI)
  have scenario: "t1 < t2 \<and> t2 - t0 \<le> 300000 \<longrightarrow>
             map fst (cache (scenarioB t0 t1 t2 t3)) = [''a'', ''c'']"
    by (simp add: scenarioB_run stateB_def)
  show ?thesis
    using general scenario by (rule conjI)
qed

theorem lru_count_eviction_witness:
  "distinct (map fst (cache (scenarioB 0 0 0 0)))
   \<and> cache (scenarioB 0 0 0 0) \<noteq> []
   \<and> maxSize (config (scenarioB 0 0 0 0)) \<le> length (cache (scenarioB 0 0 0 0))
   \<and> length (cache (state_of (evictLeastRecentlyUsed (scenarioB 0 0 0 0)))) = 1
   \<and> (0::int) < 1 \<and> (1::int) - 0 \<le> 300000
   \<and> map fst (cache (scenarioB 0 0 1 2)) = [''a'', ''c'']"
proof -
  have d: "distinct (map fst (cache (scenarioB 0 0 0 0)))"
    and n: "cache (scenarioB 0 0 0 0) \<noteq> []"
    and c: "maxSize (config (scenarioB 0 0 0 0)) \<le> length (cache (scenarioB 0 0 0 0))"
    and l: "length (cache (scenarioB 0 0 0 0)) = 2"
    by (simp_all add: scenarioB_run stateB_def)
  from lru_count_eviction [OF d n c, of 0 0 1 0 2]
  obtain s1 where "evictLeastRecentlyUsed (scenarioB 0 0 0 0) = Normal s1"
    and "length (cache s1) = length (cache (scenarioB 0 0 0 0))
           - max 1 (length (cache (scenarioB 0 0 0 0)) div 10)"
    and "map fst (cache (scenarioB 0 0 1 2)) = [''a'', ''c'']"
    by auto
  then show ?thesis
    using d n c l by simp
qed

text \<open>
  When the four calls of Scenario B read the same clock value (they run within one
  millisecond), "a" and "b" tie on \<open>lastAccessed\<close>, the sort keeps the insertion order
  and the last \<open>set\<close> evicts "a": "b" and "c" remain.
\<close>

theorem lru_scenario_same_clock:
  "map fst (cache (scenarioB 0 0 0 0)) = [''b'', ''c'']
   \<and> map_of (cache (scenarioB 0 0 0 0)) ''a'' = None"
  by (simp add: scenarioB_run stateB_def)

text \<open>
  C10. On a cache that holds exactly \<open>maxSize\<close> entries, \<open>set\<close> with a key that is
  already present still runs the count-based eviction before it stores: an entry with
  the oldest \<open>lastAccessed\<close> is removed and counted, the entry count does not grow, and
  when that oldest entry is under another key it is gone afterwards and the cache holds
  fewer entries than before.
\<close>

theorem replace_at_capacity_evicts:
  assumes "distinct (map fst (cache s))"
    and "length (cache s) = maxSize (config s)"
    and "map_of (cache s) k = Some old"
  shows "\<exists>s' oldest. set_cache stringify now k v ttl_arg s = Normal s'
     \<and> oldest \<in> set (cache s)
     \<and> (\<forall>e \<in> set (cache s). lastAccessed (snd oldest) \<le> lastAccessed (snd e))
     \<and> evictions (stats s') \<ge> evictions (stats s) + 1
     \<and> length (cache s') \<le> length (cache s)
     \<and> (fst oldest \<noteq> k \<longrightarrow>
           map_of (cache s') (fst oldest) = None \<and> length (cache s') < length (cache s))
     \<and> (\<exists>e. map_of (cache s') k = Some e \<and> val e = v \<and> timestamp e = now)"
proof -
  define c where "c = cache s"
  define n where "n = max 1 (length c div 10)"
  define es where "es = sort_key (\<lambda>a. lastAccessed (snd a)) c"
  define c1 where "c1 = filter (\<lambda>p. fst p \<notin> fst ` set (take n es)) c"
  define sz where "sz = estimateSize stringify v"
  define entryTtl where "entryTtl = (case ttl_arg of None \<Rightarrow> defaultTtl (config s)
                                    | Some t \<Rightarrow> if t = 0 then defaultTtl (config s) else t)"
  define entry where "entry = \<lparr>key = k, val = v, timestamp = now, ttl = entryTtl, accessCount = 1,
                   lastAccessed = now, size_bytes = sz\<rparr>"
  have kin: "k \<in> fst ` set c"
    using assms(3) by (auto simp: c_def dest: map_of_SomeD intro: rev_image_eqI)
  then have ne: "c \<noteq> []" by auto
  have dc: "distinct (map fst c)" using assms(1) by (simp add: c_def)
  note f = lru_prefix_facts [OF dc ne, folded n_def, folded es_def, folded c1_def]
  have cap: "maxSize (config s) \<le> length (cache s)" using assms(2) by simp
  have cache_c: "cache s = c" by (simp add: c_def)
  note es_facts = ensureSpace_at_capacity [of s sz, unfolded cache_c, folded n_def, folded es_def, folded c1_def]
  obtain s2 K m where s2: "ensureSpace sz s = Normal s2"
      "cache s2 = filter (\<lambda>p. fst p \<notin> K) c1"
      "evictions (stats s2) = evictions (stats s) + n + m"
    using es_facts [OF ne] cap cache_c by auto
  define c2 where "c2 = filter (\<lambda>p. fst p \<notin> K) c1"
  define s' where "s' = s2\<lparr>cache := AList.update k entry c2\<rparr>"
  note defs = s2(1,2) s'_def c2_def entry_def sz_def [symmetric] entryTtl_def [symmetric]
  have run: "set_cache stringify now k v ttl_arg s = Normal s'"
    by (simp add: set_cache_def Let_def defs)
  have cs': "cache s' = AList.update k entry c2" by (simp add: s'_def)
  have evs: "evictions (stats s') = evictions (stats s) + n + m"
    by (simp add: s'_def s2(3))
  have keys2: "fst ` set c2 \<subseteq> fst ` set c1" by (auto simp: c2_def)
  have keys1: "fst ` set c1 \<subseteq> fst ` set c" by (auto simp: c1_def)
  have len2: "length c2 \<le> length c - n"
    using f(1) by (simp add: c2_def le_trans [OF length_filter_le])
  have len': "length (cache s') = (if k \<in> fst ` set c2 then length c2 else Suc (length c2))"
    by (simp only: cs' length_update)
  have le: "length (cache s') \<le> length c"
    using len' len2 f(2,3) by (auto split: if_splits)
  have oldest_out: "fst (hd es) \<notin> fst ` set c2"
    using f(7) keys2 by (rule contra_subsetD [rotated])
  have strict: "length (cache s') < length c" if neq: "fst (hd es) \<noteq> k"
  proof (cases "k \<in> fst ` set c2")
    case True
    then show ?thesis using len' len2 f(2,3) by simp
  next
    case False
    have d2: "distinct (map fst c2)"
      using dc by (simp add: c2_def c1_def distinct_map_filter)
    have sub: "fst ` set c2 \<subseteq> fst ` set c - {fst (hd es), k}"
    proof (rule subsetI)
      fix x assume x: "x \<in> fst ` set c2"
      have x1: "x \<in> fst ` set c1" using keys2 x by (rule subsetD)
      have x0: "x \<in> fst ` set c" using keys1 x1 by (rule subsetD)
      have xo: "x \<noteq> fst (hd es)"
      proof
        assume "x = fst (hd es)"
        with x oldest_out show False by simp
      qed
      have xk: "x \<noteq> k"
      proof
        assume "x = k"
        with x False show False by simp
      qed
      show "x \<in> fst ` set c - {fst (hd es), k}"
        using x0 xo xk by simp
    qed
    have oin: "fst (hd es) \<in> fst ` set c" using f(6) by (rule imageI)
    have "card (fst ` set c - {fst (hd es), k}) = card (fst ` set c) - 2"
      using oin kin neq by (simp add: card_Diff_subset)
    moreover have "card (fst ` set c2) \<le> card (fst ` set c - {fst (hd es), k})"
      using sub by (intro card_mono) auto
    moreover have "2 \<le> card (fst ` set c)"
    proof -
      have "{fst (hd es), k} \<subseteq> fst ` set c" using oin kin by simp
      then have "card {fst (hd es), k} \<le> card (fst ` set c)" by (intro card_mono) auto
      then show ?thesis using neq by simp
    qed
    ultimately have "Suc (length c2) < length c"
      using length_eq_card_keys [OF d2] length_eq_card_keys [OF dc] by linarith
    then show ?thesis using len' False by simp
  qed
  have gone: "map_of (cache s') (fst (hd es)) = None" if neq: "fst (hd es) \<noteq> k"
    using neq oldest_out by (simp add: cs' AList.update_conv' map_of_eq_None_iff)
  have new: "map_of (cache s') k = Some entry"
    by (simp add: cs' AList.update_conv')
  have "oldest_ok": "hd es \<in> set (cache s)"
     "\<forall>e \<in> set (cache s). lastAccessed (snd (hd es)) \<le> lastAccessed (snd e)"
    using f(6,8) by (simp_all add: c_def)
  have ev1: "evictions (stats s') \<ge> evictions (stats s) + 1"
    using evs f(2) by simp
  have le': "length (cache s') \<le> length (cache s)" using le by (simp add: c_def)
  have third: "fst (hd es) \<noteq> k \<longrightarrow>
           map_of (cache s') (fst (hd es)) = None \<and> length (cache s') < length (cache s)"
    using gone strict by (simp add: c_def)
  have last: "\<exists>e. map_of (cache s') k = Some e \<and> val e = v \<and> timestamp e = now"
    using new by (simp add: entry_def)
  show ?thesis
    using run oldest_ok ev1 le' third last by (intro exI[of _ s'] exI[of _ "hd es"] conjI)
qed

theorem replace_at_capacity_evicts_witness:
  "distinct (map fst (cache (scenarioB 0 1 1 1)))
   \<and> length (cache (scenarioB 0 1 1 1)) = maxSize (config (scenarioB 0 1 1 1))
   \<and> map_of (cache (scenarioB 0 1 1 1)) ''c'' = Some (entryB ''c'' 3 1 1 1)
   \<and> map fst (cache (state_of (set_cache stringify_digit 2 ''c'' 4 None (scenarioB 0 1 1 1)))) = [''c'']
   \<and> evictions (stats (state_of (set_cache stringify_digit 2 ''c'' 4 None (scenarioB 0 1 1 1)))) = 2"
proof -
  have d: "distinct (map fst (cache (scenarioB 0 1 1 1)))"
    and l: "length (cache (scenarioB 0 1 1 1)) = maxSize (config (scenarioB 0 1 1 1))"
    and p: "map_of (cache (scenarioB 0 1 1 1)) ''c'' = Some (entryB ''c'' 3 1 1 1)"
    by (simp_all add: scenarioB_run stateB_def)
  have run: "set_cache stringify_digit 2 ''c'' 4 None (scenarioB 0 1 1 1)
      = Normal (stateB [(''c'', entryB ''c'' 4 2 1 2)] 1 2)"
    by (simp add: scenarioB_run stateB_def entryB_def stringify_digit_def cache_defs
          DEFAULT_CACHE_CONFIG_def)
  show ?thesis
    using replace_at_capacity_evicts [OF d l p, of stringify_digit 2 4 None] d l p
    by (simp add: run stateB_def)
qed

section \<open>The two limits over runs of \<open>set\<close>\<close>

text \<open>
  Starting from a new manager, after every run of \<open>set\<close> calls the cache holds at most
  \<open>maxSize\<close> entries, whatever the keys, values and sizes.
\<close>

theorem count_limit_kept_by_every_set:
  "length (cache (run_sets stringify calls (new_CacheManager cfg))) \<le> maxSize cfg"
proof -
  have "within_count (run_sets stringify calls (new_CacheManager cfg))
      \<and> config (run_sets stringify calls (new_CacheManager cfg)) = cfg"
    by (rule run_sets_count_new)
  then have w: "within_count (run_sets stringify calls (new_CacheManager cfg))"
    and c: "config (run_sets stringify calls (new_CacheManager cfg)) = cfg"
    by (rule conjunct1, rule conjunct2)
  show ?thesis
    using w unfolding within_count_def c by (rule conjunct2)
qed

text \<open>
  If the estimated size of every value that is set is at most the memory limit, the sum
  of the sizes stays within the memory limit as well.
\<close>

theorem budget_kept_by_sets_that_fit:
  assumes "\<forall>call \<in> set calls. estimateSize stringify (fst (snd (snd call))) \<le> maxMemoryBytes cfg"
  shows "length (cache (run_sets stringify calls (new_CacheManager cfg))) \<le> maxSize cfg
       \<and> getCurrentMemoryUsage (run_sets stringify calls (new_CacheManager cfg)) \<le> maxMemoryBytes cfg"
proof -
  have "within_budget (run_sets stringify calls (new_CacheManager cfg))
      \<and> config (run_sets stringify calls (new_CacheManager cfg)) = cfg"
    using assms by (rule run_sets_budget_new)
  then have w: "within_budget (run_sets stringify calls (new_CacheManager cfg))"
    and c: "config (run_sets stringify calls (new_CacheManager cfg)) = cfg"
    by (rule conjunct1, rule conjunct2)
  show ?thesis
    using w unfolding within_budget_def c by (rule conjunct2)
qed

lemma length_big_document: "length big_document = 600000"
  by (simp only: big_document_def length_replicate)

text \<open>
  C1 at an entry larger than the whole budget. On a manager limited to one megabyte
  (1048576 bytes), \<open>set\<close> of a 600000-character string, whose estimated size is 1200004
  bytes, finds nothing to evict and stores the entry: afterwards the cache holds one
  entry and 1200004 bytes. The count limit is respected, the memory limit is not.
\<close>

theorem oversize_entry_exceeds_budget:
  "(case set_cache stringify_text 0 ''doc:big'' big_document None one_megabyte_cache of
      Normal s \<Rightarrow> length (cache s) = 1 \<and> getCurrentMemoryUsage s = 1200004
                  \<and> maxMemoryBytes (config s) = 1048576
                  \<and> getCurrentMemoryUsage s > maxMemoryBytes (config s)
    | Thrown err s \<Rightarrow> False)"
  by (simp add: set_cache_def ensureSpace_def estimateSize_def stringify_text_def
        length_big_document getCurrentMemoryUsage_def maxMemoryBytes_def
        evictByMemoryPressure_def array_sort_def one_megabyte_cache_def
        new_CacheManager_def DEFAULT_CACHE_CONFIG_def)

section \<open>The tool names the adapter knows\<close>

lemma getAPICallForTool_known:
  "getAPICallForTool ''siyuan_get_notebook_conf'' = Some (''POST'', ''/api/notebook/getNotebookConf'')"
  "getAPICallForTool ''siyuan_list_notebooks'' = Some (''POST'', ''/api/notebook/lsNotebooks'')"
  "getAPICallForTool ''siyuan_get_block_kramdown'' = Some (''POST'', ''/api/block/getBlockKramdown'')"
  "getAPICallForTool ''siyuan_fulltext_search_block''
     = Some (''POST'', ''/api/search/fullTextSearchBlock'')"
  "getAPICallForTool ''siyuan_insert_block'' = Some (''POST'', ''/api/block/insertBlock'')"
  by code_simp+

lemma getAPICallForTool_unknown:
  "getAPICallForTool ''siyuan_get_conf'' = None"
  "getAPICallForTool ''siyuan_create_doc_with_md'' = None"
  "getAPICallForTool ''siyuan_update_block'' = None"
  "getAPICallForTool ''siyuan_remove_doc'' = None"
  "getAPICallForTool ''siyuan_delete_block'' = None"
  "getAPICallForTool ''siyuan_move_block'' = None"
  by code_simp+

lemma callTool_unknown:
  "getAPICallForTool toolName = None \<Longrightarrow> callTool e toolName args = Inl (''Unknown tool: '' @ toolName)"
  by (simp add: callTool_def)

lemma callTool_known:
  "getAPICallForTool toolName = Some (method, url) \<Longrightarrow>
     callTool e toolName args =
       (case httpClient_request e method url args of
          Inl message \<Rightarrow> Inl (''API call failed: SiYuan API error: '' @ message)
        | Inr body \<Rightarrow>
            if body = JNull then Inl (''API call failed: '' @ null_property_message e ''data'')
            else Inr (js_prop body ''data''))"
  by (simp add: callTool_def makeAPICall_def split: sum.splits)

section \<open>Resource handlers when the upstream fails\<close>

lemma get_keeps_stored_entries:
  "map_of (cache (snd (get now ck s))) k = Some e' \<Longrightarrow>
     \<exists>e0. map_of (cache s) k = Some e0 \<and> val e' = val e0 \<and> timestamp e' = timestamp e0
        \<and> ttl e' = ttl e0 \<and> size_bytes e' = size_bytes e0"
  by (auto simp: get_def count_miss_def count_hit_def AList.delete_conv' AList.update_conv'
           split: option.splits if_splits)

text \<open>
  C6, as the code has it. When the upstream call of a caching resource handler throws
  (\<^verbatim>\<open>callTool\<close> with the handler's tool name and arguments), the handler stores nothing
  and leaves the manager exactly as its initial \<open>get\<close> under the handler's own cache key
  left it; unless that \<open>get\<close> was served from the cache, the response is the error text
  with the message thrown. Each handler is taken with its own call and its own message.
  The first upstream call of the workspace handler is \<^verbatim>\<open>siyuan_get_conf\<close>, a name the
  adapter does not know, so that call throws whatever the HTTP client does. The \<open>get\<close>
  adds no key and changes no stored value, timestamp, TTL or size; it deletes an expired
  entry under the key it reads and moves a counter.
\<close>

theorem upstream_failure_stores_nothing:
  "(callTool e ''siyuan_get_notebook_conf'' (JObj [(''notebook'', JStr nid)]) = Inl m1 \<longrightarrow>
      snd (handleNotebookResource e now now2 href nid s) = snd (get now (''notebook:'' @ nid) s)
      \<and> (\<not> cached_hit (fst (get now (''notebook:'' @ nid) s)) \<longrightarrow>
           fst (handleNotebookResource e now now2 href nid s)
             = error_contents href (''Error accessing notebook '' @ nid @ '': '' @ m1)))
   \<and> (callTool e ''siyuan_list_notebooks'' (JObj []) = Inl m2 \<longrightarrow>
      snd (handleNotebooksListResource e now now2 href s) = snd (get now ''notebooks:list'' s)
      \<and> (\<not> cached_hit (fst (get now ''notebooks:list'' s)) \<longrightarrow>
           fst (handleNotebooksListResource e now now2 href s)
             = error_contents href (''Error listing notebooks: '' @ m2)))
   \<and> (callTool e ''siyuan_get_block_kramdown'' (JObj [(''id'', JStr did)]) = Inl m3 \<longrightarrow>
      snd (handleDocumentResource e now now2 href did s) = snd (get now (''document:'' @ did) s)
      \<and> (\<not> cached_hit (fst (get now (''document:'' @ did) s)) \<longrightarrow>
           fst (handleDocumentResource e now now2 href did s)
             = error_contents href (''Error accessing document '' @ did @ '': '' @ m3)))
   \<and> (callTool e ''siyuan_get_block_kramdown'' (JObj [(''id'', JStr bid)]) = Inl m4 \<longrightarrow>
      snd (handleBlockResource e now now2 href bid s) = snd (get now (''block:'' @ bid) s)
      \<and> (\<not> cached_hit (fst (get now (''block:'' @ bid) s)) \<longrightarrow>
           fst (handleBlockResource e now now2 href bid s)
             = error_contents href (''Error accessing block '' @ bid @ '': '' @ m4)))
   \<and> (callTool e ''siyuan_fulltext_search_block''
         (JObj [(''query'', JStr q), (''method'', parseInt e (param_or mp ''0'')),
                (''types'', search_types), (''paths'', JArr []), (''groupBy'', JNum 0),
                (''orderBy'', JNum 0), (''page'', JNum 1),
                (''pageSize'', parseInt e (param_or lp ''20''))]) = Inl m5 \<longrightarrow>
      snd (handleSearchResource e now now2 href q mp lp s)
        = snd (get now (''search:'' @ q @ '':'' @ js_String e (parseInt e (param_or mp ''0''))
                          @ '':'' @ js_String e (parseInt e (param_or lp ''20''))) s)
      \<and> (\<not> cached_hit (fst (get now (''search:'' @ q @ '':''
                                  @ js_String e (parseInt e (param_or mp ''0'')) @ '':''
                                  @ js_String e (parseInt e (param_or lp ''20''))) s)) \<longrightarrow>
           fst (handleSearchResource e now now2 href q mp lp s)
             = error_contents href (''Error searching for '' @ [CHR 0x22] @ q @ [CHR 0x22]
                                      @ '': '' @ m5)))
   \<and> snd (handleWorkspaceResource e now now2 href s) = snd (get now ''workspace:info'' s)
   \<and> (\<not> cached_hit (fst (get now ''workspace:info'' s)) \<longrightarrow>
        fst (handleWorkspaceResource e now now2 href s)
          = error_contents href ''Error accessing workspace: Unknown tool: siyuan_get_conf'')
   \<and> (\<forall>ck k e'. map_of (cache (snd (get now ck s))) k = Some e' \<longrightarrow>
        (\<exists>e0. map_of (cache s) k = Some e0 \<and> val e' = val e0 \<and> timestamp e' = timestamp e0
            \<and> ttl e' = ttl e0 \<and> size_bytes e' = size_bytes e0))"
proof (intro conjI impI allI)
  show "snd (handleNotebookResource e now now2 href nid s) = snd (get now (''notebook:'' @ nid) s)"
    if "callTool e ''siyuan_get_notebook_conf'' (JObj [(''notebook'', JStr nid)]) = Inl m1"
    using that by (simp add: handleNotebookResource_def Let_def split: prod.splits)
  show "fst (handleNotebookResource e now now2 href nid s)
          = error_contents href (''Error accessing notebook '' @ nid @ '': '' @ m1)"
    if "callTool e ''siyuan_get_notebook_conf'' (JObj [(''notebook'', JStr nid)]) = Inl m1"
      and "\<not> cached_hit (fst (get now (''notebook:'' @ nid) s))"
    using that by (auto simp: handleNotebookResource_def Let_def split: prod.splits)
  show "snd (handleNotebooksListResource e now now2 href s) = snd (get now ''notebooks:list'' s)"
    if "callTool e ''siyuan_list_notebooks'' (JObj []) = Inl m2"
    using that by (simp add: handleNotebooksListResource_def Let_def split: prod.splits)
  show "fst (handleNotebooksListResource e now now2 href s)
          = error_contents href (''Error listing notebooks: '' @ m2)"
    if "callTool e ''siyuan_list_notebooks'' (JObj []) = Inl m2"
      and "\<not> cached_hit (fst (get now ''notebooks:list'' s))"
    using that by (auto simp: handleNotebooksListResource_def Let_def split: prod.splits)
  show "snd (handleDocumentResource e now now2 href did s) = snd (get now (''document:'' @ did) s)"
    if "callTool e ''siyuan_get_block_kramdown'' (JObj [(''id'', JStr did)]) = Inl m3"
    using that by (simp add: handleDocumentResource_def Let_def split: prod.splits)
  show "fst (handleDocumentResource e now now2 href did s)
          = error_contents href (''Error accessing document '' @ did @ '': '' @ m3)"
    if "callTool e ''siyuan_get_block_kramdown'' (JObj [(''id'', JStr did)]) = Inl m3"
      and "\<not> cached_hit (fst (get now (''document:'' @ did) s))"
    using that by (auto simp: handleDocumentResource_def Let_def split: prod.splits)
  show "snd (handleBlockResource e now now2 href bid s) = snd (get now (''block:'' @ bid) s)"
    if "callTool e ''siyuan_get_block_kramdown'' (JObj [(''id'', JStr bid)]) = Inl m4"
    using that by (simp add: handleBlockResource_def Let_def split: prod.splits)
  show "fst (handleBlockResource e now now2 href bid s)
          = error_contents href (''Error accessing block '' @ bid @ '': '' @ m4)"
    if "callTool e ''siyuan_get_block_kramdown'' (JObj [(''id'', JStr bid)]) = Inl m4"
      and "\<not> cached_hit (fst (get now (''block:'' @ bid) s))"
    using that by (auto simp: handleBlockResource_def Let_def split: prod.splits)
  let ?args = "JObj [(''query'', JStr q), (''method'', parseInt e (param_or mp ''0'')),
                (''types'', search_types), (''paths'', JArr []), (''groupBy'', JNum 0),
                (''orderBy'', JNum 0), (''page'', JNum 1),
                (''pageSize'', parseInt e (param_or lp ''20''))]"
  let ?ck = "''search:'' @ q @ '':'' @ js_String e (parseInt e (param_or mp ''0''))
               @ '':'' @ js_String e (parseInt e (param_or lp ''20''))"
  show "snd (handleSearchResource e now now2 href q mp lp s) = snd (get now ?ck s)"
    if "callTool e ''siyuan_fulltext_search_block'' ?args = Inl m5"
    using that by (simp add: handleSearchResource_def Let_def split: prod.splits)
  show "fst (handleSearchResource e now now2 href q mp lp s)
          = error_contents href (''Error searching for '' @ [CHR 0x22] @ q @ [CHR 0x22]
                                   @ '': '' @ m5)"
    if "callTool e ''siyuan_fulltext_search_block'' ?args = Inl m5"
      and "\<not> cached_hit (fst (get now ?ck s))"
    using that by (auto simp: handleSearchResource_def Let_def split: prod.splits)
  show "snd (handleWorkspaceResource e now now2 href s) = snd (get now ''workspace:info'' s)"
    by (simp add: handleWorkspaceResource_def Let_def
          callTool_unknown [OF getAPICallForTool_unknown(1)] split: prod.splits)
  show "fst (handleWorkspaceResource e now now2 href s)
          = error_contents href ''Error accessing workspace: Unknown tool: siyuan_get_conf''"
    if "\<not> cached_hit (fst (get now ''workspace:info'' s))"
    using that by (auto simp: handleWorkspaceResource_def Let_def
          callTool_unknown [OF getAPICallForTool_unknown(1)] split: prod.splits)
  show "\<exists>e0. map_of (cache s) k = Some e0 \<and> val e' = val e0 \<and> timestamp e' = timestamp e0
            \<and> ttl e' = ttl e0 \<and> size_bytes e' = size_bytes e0"
    if "map_of (cache (snd (get now ck s))) k = Some e'" for ck k e'
    using that by (rule get_keeps_stored_entries)
qed

theorem upstream_failure_stores_nothing_witness:
  "callTool failing_env ''siyuan_get_block_kramdown'' (JObj [(''id'', JStr ''D1'')])
     = Inl ''API call failed: SiYuan API error: timeout of 30000ms exceeded''
   \<and> \<not> cached_hit (fst (get 70000 ''document:D1'' stale_document_cache))
   \<and> fst (handleDocumentResource failing_env 70000 70001 ''siyuan://document/D1'' ''D1''
            stale_document_cache)
       = error_contents ''siyuan://document/D1''
           ''Error accessing document D1: API call failed: SiYuan API error: timeout of 30000ms exceeded''
   \<and> cache (snd (handleDocumentResource failing_env 70000 70001 ''siyuan://document/D1'' ''D1''
            stale_document_cache)) = []
   \<and> misses (stats (snd (handleDocumentResource failing_env 70000 70001 ''siyuan://document/D1''
            ''D1'' stale_document_cache))) = 1
   \<and> callTool failing_env ''siyuan_fulltext_search_block''
         (JObj [(''query'', JStr ''old''), (''method'', JNum 0), (''types'', search_types),
                (''paths'', JArr []), (''groupBy'', JNum 0), (''orderBy'', JNum 0),
                (''page'', JNum 1), (''pageSize'', JNum 20)])
       = Inl ''API call failed: SiYuan API error: timeout of 30000ms exceeded''
   \<and> \<not> cached_hit (fst (get 70000 ''search:old:0:20'' stale_document_cache))
   \<and> fst (handleSearchResource failing_env 70000 70001 ''siyuan://search?query=old'' ''old''
            None None stale_document_cache)
       = error_contents ''siyuan://search?query=old''
           (''Error searching for '' @ [CHR 0x22] @ ''old'' @ [CHR 0x22]
              @ '': API call failed: SiYuan API error: timeout of 30000ms exceeded'')
   \<and> cache (snd (handleSearchResource failing_env 70000 70001 ''siyuan://search?query=old''
            ''old'' None None stale_document_cache)) = cache stale_document_cache
   \<and> misses (stats (snd (handleSearchResource failing_env 70000 70001
            ''siyuan://search?query=old'' ''old'' None None stale_document_cache))) = 1
   \<and> fst (handleWorkspaceResource failing_env 70000 70001 ''siyuan://workspace''
            stale_document_cache)
       = error_contents ''siyuan://workspace''
           ''Error accessing workspace: Unknown tool: siyuan_get_conf''
   \<and> cache (snd (handleWorkspaceResource failing_env 70000 70001 ''siyuan://workspace''
            stale_document_cache)) = cache stale_document_cache"
  using upstream_failure_stores_nothing [where e = failing_env and now = 70000
          and ?now2.0 = 70001 and s = stale_document_cache and did = "''D1''" and q = "''old''"
          and mp = None and lp = None
          and ?m3.0 = "''API call failed: SiYuan API error: timeout of 30000ms exceeded''"
          and ?m5.0 = "''API call failed: SiYuan API error: timeout of 30000ms exceeded''"]
  by (simp add: callTool_known [OF getAPICallForTool_known(3)]
        callTool_known [OF getAPICallForTool_known(4)] param_or_def
        failing_env_def stale_document_cache_def get_def isExpired_def count_miss_def
        cached_hit_def)

text \<open>
  The manager does change when the key holds an expired entry: the handler's \<open>get\<close>
  deletes it before the upstream call fails.
\<close>

theorem upstream_failure_removes_expired_entry:
  "callTool failing_env ''siyuan_get_block_kramdown'' (JObj [(''id'', JStr ''D1'')])
     = Inl ''API call failed: SiYuan API error: timeout of 30000ms exceeded''
   \<and> fst (handleDocumentResource failing_env 70000 70001 ''siyuan://document/D1'' ''D1''
            stale_document_cache)
     = error_contents ''siyuan://document/D1''
         ''Error accessing document D1: API call failed: SiYuan API error: timeout of 30000ms exceeded''
   \<and> cache (snd (handleDocumentResource failing_env 70000 70001 ''siyuan://document/D1'' ''D1''
            stale_document_cache)) \<noteq> cache stale_document_cache"
  by (simp add: handleDocumentResource_def Let_def callTool_known [OF getAPICallForTool_known(3)]
        failing_env_def stale_document_cache_def get_def isExpired_def count_miss_def
        cached_hit_def)

section \<open>Write handlers and the keys they invalidate\<close>

text \<open>
  Six of the seven write handlers call the adapter with a tool name it does not know
  (the generated tools are named \<^verbatim>\<open>filetree_create_doc\<close>, \<^verbatim>\<open>block_update_content\<close> and so
  on): whatever the HTTP client does, \<^verbatim>\<open>callTool\<close> throws before any request, the handler
  answers with the error response and the manager is untouched.
\<close>

lemma write_handlers_unknown_tool:
  "createDocument e notebook path markdown s
     = (tool_error ''create-document'' ''creating document''
          ''Unknown tool: siyuan_create_doc_with_md'', s)"
  "updateDocument e documentId markdown s
     = (tool_error ''update-document'' ''updating document'' ''Unknown tool: siyuan_update_block'', s)"
  "deleteDocument e notebook path s
     = (tool_error ''delete-document'' ''deleting document'' ''Unknown tool: siyuan_remove_doc'', s)"
  "updateBlock e blockId dataType data s
     = (tool_error ''update-block'' ''updating block'' ''Unknown tool: siyuan_update_block'', s)"
  "deleteBlock e blockId s
     = (tool_error ''delete-block'' ''deleting block'' ''Unknown tool: siyuan_delete_block'', s)"
  "moveBlock e blockId parentID previousID s
     = (tool_error ''move-block'' ''moving block'' ''Unknown tool: siyuan_move_block'', s)"
  by (simp_all add: createDocument_def updateDocument_def deleteDocument_def updateBlock_def
        deleteBlock_def moveBlock_def callTool_unknown getAPICallForTool_unknown)

text \<open>
  \<^verbatim>\<open>insert-block\<close> is the write handler whose upstream call can return. When it does,
  the handler deletes the two keys it forms from \<^verbatim>\<open>parentID\<close>, and no other.
\<close>

lemma insertBlock_on_success:
  assumes "callTool e ''siyuan_insert_block''
             (JObj [(''dataType'', JStr dataType), (''data'', JStr data),
                    (''parentID'', JStr parentID), (''previousID'', previousID)]) = Inr result"
  shows "isError (fst (insertBlock e dataType data parentID previousID s)) = False"
    and "cache (snd (insertBlock e dataType data parentID previousID s))
           = AList.delete (''block-children:'' @ parentID)
               (AList.delete (''block:'' @ parentID) (cache s))"
  using assms by (simp_all add: insertBlock_def delete_def Let_def)

lemma document_cached_eq:
  "document_cached =
     \<lparr>cache = [(''document:20210808180117-6v0mkxr'',
         \<lparr>key = ''document:20210808180117-6v0mkxr'',
          val = JObj [(''id'', JStr ''20210808180117-6v0mkxr''), (''content'', JStr ''old text''),
                      (''metadata'', metadata_of failing_env ''document'' 0
                                       ''siyuan://document/20210808180117-6v0mkxr'')],
          timestamp = 0, ttl = 60000, accessCount = 1, lastAccessed = 0, size_bytes = 4\<rparr>)],
      config = DEFAULT_CACHE_CONFIG,
      stats = \<lparr>hits = 0, misses = 1, evictions = 0, cleanups = 0\<rparr>\<rparr>"
  by (simp add: document_cached_def handleDocumentResource_def Let_def
        callTool_known [OF getAPICallForTool_known(3)] kernel_env_def kernel_body_def
        metadata_of_def failing_env_def new_CacheManager_def get_def count_miss_def
        cached_hit_def js_or_def set_cache_def ensureSpace_def estimateSize_def
        getCurrentMemoryUsage_def maxMemoryBytes_def DEFAULT_CACHE_CONFIG_def)

text \<open>
  C2 at \<^verbatim>\<open>insert-block\<close>. The document resource of document \<^verbatim>\<open>20210808180117-6v0mkxr\<close>
  has been read and cached under \<^verbatim>\<open>document:20210808180117-6v0mkxr\<close> with the content
  \<^verbatim>\<open>old text\<close>. Inserting a block into that document (\<^verbatim>\<open>parentID\<close> is the document's
  identifier) succeeds upstream and deletes \<^verbatim>\<open>block:<parentID>\<close> and
  \<^verbatim>\<open>block-children:<parentID>\<close> only. One millisecond later the upstream holds the new
  Kramdown, and a read of the document resource is still answered from the cache with
  the old text; from an empty cache the same read gives the new text. (\<^verbatim>\<open>update-document\<close>
  deletes both \<^verbatim>\<open>document:<id>\<close> and \<^verbatim>\<open>block:<id>\<close> for the one identifier it is given.)
\<close>

theorem insertBlock_keeps_document_entry:
  "fst (insertBlock (kernel_env ''old text'') ''markdown'' ''new paragraph''
          ''20210808180117-6v0mkxr'' JNull document_cached)
     = \<lparr>tool_text = ''Block inserted successfully. Block ID: 20210808180320-abz7w6k'',
        isError = False,
        metadata = [(''operation'', JStr ''insert-block''),
                    (''parentID'', JStr ''20210808180117-6v0mkxr''),
                    (''blockId'', JStr ''20210808180320-abz7w6k'')]\<rparr>
   \<and> fst (handleDocumentResource (kernel_env ''old text new paragraph'') 1 1
            ''siyuan://document/20210808180117-6v0mkxr'' ''20210808180117-6v0mkxr''
            (snd (insertBlock (kernel_env ''old text'') ''markdown'' ''new paragraph''
                    ''20210808180117-6v0mkxr'' JNull document_cached)))
       = [\<lparr>uri = ''siyuan://document/20210808180117-6v0mkxr'', text_of = JStr ''old text'',
           mimeType = ''text/markdown''\<rparr>]
   \<and> fst (handleDocumentResource (kernel_env ''old text new paragraph'') 1 1
            ''siyuan://document/20210808180117-6v0mkxr'' ''20210808180117-6v0mkxr''
            (new_CacheManager DEFAULT_CACHE_CONFIG))
       = [\<lparr>uri = ''siyuan://document/20210808180117-6v0mkxr'',
           text_of = JStr ''old text new paragraph'', mimeType = ''text/markdown''\<rparr>]"
  by (simp add: document_cached_eq insertBlock_def handleDocumentResource_def Let_def
        callTool_known [OF getAPICallForTool_known(3)]
        callTool_known [OF getAPICallForTool_known(5)] kernel_env_def kernel_body_def
        delete_def failing_env_def get_def isExpired_def count_hit_def count_miss_def
        cached_hit_def js_or_def new_CacheManager_def set_cache_def ensureSpace_def
        estimateSize_def getCurrentMemoryUsage_def maxMemoryBytes_def DEFAULT_CACHE_CONFIG_def)

section \<open>Routing and the inactivity sweep\<close>

text \<open>
  C5. A POST that carries a session identifier the registry does not hold, or carries
  none (an absent or empty header) with a body that is not an initialization request,
  is answered with status 400 and a JSON-RPC error object of code -32000, and the
  registry is returned as it was: no session is created or removed.
\<close>

theorem unknown_session_rejected:
  assumes "(has_session_id sessionId \<and> map_of sessions (the sessionId) = None)
         \<or> (\<not> has_session_id sessionId \<and> \<not> isInitializeRequest k body)"
  shows "handleClientToServerRequest k now sessionId body sessions
           = (Json 400 (jsonrpc_error (- 32000)
                ''Bad Request: No valid session ID provided or not an initialization request''),
              sessions)"
  using assms by (auto simp: handleClientToServerRequest_def)

theorem unknown_session_rejected_witness:
  "has_session_id (Some ''nonexistent-id'') \<and> map_of three_sessions ''nonexistent-id'' = None
   \<and> handleClientToServerRequest quiet_sdk 5 (Some ''nonexistent-id'')
        (JObj [(''method'', JStr ''initialize'')]) three_sessions
      = (Json 400 (jsonrpc_error (- 32000)
           ''Bad Request: No valid session ID provided or not an initialization request''),
         three_sessions)
   \<and> \<not> has_session_id None \<and> \<not> isInitializeRequest quiet_sdk (JObj [(''method'', JStr ''tools/list'')])
   \<and> handleClientToServerRequest quiet_sdk 5 None
        (JObj [(''method'', JStr ''tools/list'')]) three_sessions
      = (Json 400 (jsonrpc_error (- 32000)
           ''Bad Request: No valid session ID provided or not an initialization request''),
         three_sessions)"
  using unknown_session_rejected [of "Some ''nonexistent-id''" three_sessions quiet_sdk
          "JObj [(''method'', JStr ''initialize'')]" 5]
        unknown_session_rejected [of None three_sessions quiet_sdk
          "JObj [(''method'', JStr ''tools/list'')]" 5]
  by (simp add: has_session_id_def three_sessions_def quiet_sdk_def)

lemma cleanup_step_eq:
  "cleanup_step k now entry sessions =
     (if now - lastActivity (snd entry) > maxAge \<and> teardown_removes k (fst entry)
      then AList.delete (fst entry) sessions else sessions)"
proof (cases "map_of sessions (fst entry)")
  case None
  then have "fst entry \<notin> fst ` set sessions"
    by (simp add: map_of_eq_None_iff)
  then have "AList.delete (fst entry) sessions = sessions"
    by (rule AList.delete_id)
  with None show ?thesis
    by (simp add: cleanup_step_def terminateSession_def)
next
  case (Some info)
  then show ?thesis
    by (simp add: cleanup_step_def terminateSession_def teardown_removes_def
          split: close_outcome.splits)
qed

lemma fold_cleanup_step:
  "map_of (fold (cleanup_step k now) xs sessions) sid =
     (if \<exists>entry \<in> set xs. fst entry = sid \<and> now - lastActivity (snd entry) > maxAge
                               \<and> teardown_removes k sid
      then None else map_of sessions sid)"
proof (induction xs arbitrary: sessions)
  case Nil
  then show ?case by simp
next
  case (Cons x xs)
  have step: "map_of (cleanup_step k now x sessions) sid =
      (if fst x = sid \<and> now - lastActivity (snd x) > maxAge \<and> teardown_removes k sid
       then None else map_of sessions sid)"
    by (auto simp: cleanup_step_eq AList.delete_conv')
  have "map_of (fold (cleanup_step k now) (x # xs) sessions) sid
      = map_of (fold (cleanup_step k now) xs (cleanup_step k now x sessions)) sid"
    by simp
  also have "\<dots> = (if \<exists>entry \<in> set xs. fst entry = sid \<and> now - lastActivity (snd entry) > maxAge
                               \<and> teardown_removes k sid
      then None else map_of (cleanup_step k now x sessions) sid)"
    by (rule Cons.IH)
  finally have unfolded: "map_of (fold (cleanup_step k now) (x # xs) sessions) sid =
      (if \<exists>entry \<in> set xs. fst entry = sid \<and> now - lastActivity (snd entry) > maxAge
                               \<and> teardown_removes k sid
       then None else map_of (cleanup_step k now x sessions) sid)" .
  show ?case
    unfolding unfolded step by auto
qed

text \<open>
  C7, as the code has it. One run of the sweep at clock reading \<open>now\<close> settles every
  registered session by itself: it is absent afterwards exactly when its last activity
  is more than 30 minutes old and its teardown takes the entry out (\<^verbatim>\<open>server.close()\<close>
  returns, or throws after the transport's close callback ran); then a later POST with
  its identifier is rejected with status 400. A session whose \<^verbatim>\<open>server.close()\<close> throws
  first stays registered, the error is caught, and the other sessions are treated as if
  it had not happened.
\<close>

theorem inactive_sessions_swept:
  assumes "distinct (map fst sessions)" and "map_of sessions sid = Some info" and "sid \<noteq> []"
  shows "map_of (setupCleanup_tick k now sessions) sid =
           (if now - lastActivity info > maxAge \<and> teardown_removes k sid then None else Some info)
       \<and> (now - lastActivity info > maxAge \<and> teardown_removes k sid \<longrightarrow>
            handleClientToServerRequest k2 now2 (Some sid) body (setupCleanup_tick k now sessions)
              = (Json 400 (jsonrpc_error (- 32000)
                   ''Bad Request: No valid session ID provided or not an initialization request''),
                 setupCleanup_tick k now sessions))"
proof -
  have mem: "(sid, i) \<in> set sessions \<longleftrightarrow> i = info" for i
  proof
    assume "(sid, i) \<in> set sessions"
    then have "map_of sessions sid = Some i"
      using assms(1) by (rule map_of_is_SomeI [rotated])
    with assms(2) show "i = info" by simp
  next
    assume "i = info"
    with assms(2) show "(sid, i) \<in> set sessions" by (simp add: map_of_SomeD)
  qed
  have ex: "(\<exists>entry \<in> set sessions. fst entry = sid \<and> now - lastActivity (snd entry) > maxAge
                               \<and> teardown_removes k sid)
        \<longleftrightarrow> now - lastActivity info > maxAge \<and> teardown_removes k sid"
  proof
    assume "\<exists>entry \<in> set sessions. fst entry = sid \<and> now - lastActivity (snd entry) > maxAge
                               \<and> teardown_removes k sid"
    then obtain i where "(sid, i) \<in> set sessions" "now - lastActivity i > maxAge"
        "teardown_removes k sid"
      by force
    then show "now - lastActivity info > maxAge \<and> teardown_removes k sid"
      using mem by simp
  next
    assume a: "now - lastActivity info > maxAge \<and> teardown_removes k sid"
    have "(sid, info) \<in> set sessions" using mem by simp
    then show "\<exists>entry \<in> set sessions. fst entry = sid \<and> now - lastActivity (snd entry) > maxAge
                               \<and> teardown_removes k sid"
      using a by (intro bexI [of _ "(sid, info)"]) simp_all
  qed
  have first: "map_of (setupCleanup_tick k now sessions) sid =
           (if now - lastActivity info > maxAge \<and> teardown_removes k sid then None else Some info)"
    unfolding setupCleanup_tick_def fold_cleanup_step ex by (simp add: assms(2))
  have second: "now - lastActivity info > maxAge \<and> teardown_removes k sid \<longrightarrow>
            handleClientToServerRequest k2 now2 (Some sid) body (setupCleanup_tick k now sessions)
              = (Json 400 (jsonrpc_error (- 32000)
                   ''Bad Request: No valid session ID provided or not an initialization request''),
                 setupCleanup_tick k now sessions)"
    using first assms(3) by (simp add: handleClientToServerRequest_def has_session_id_def)
  show ?thesis
    using first second by (rule conjI)
qed

lemma three_sessions_swept:
  "setupCleanup_tick quiet_sdk 1802001 three_sessions =
     [(''session-b'', \<lparr>session_id = ''session-b'', createdAt = 0, lastActivity = 1000\<rparr>),
      (''session-d'', \<lparr>session_id = ''session-d'', createdAt = 0, lastActivity = 1700000\<rparr>)]"
  by (simp add: setupCleanup_tick_def cleanup_step_def terminateSession_def three_sessions_def
        quiet_sdk_def maxAge_def)

theorem inactive_sessions_swept_witness:
  "distinct (map fst three_sessions)
   \<and> map_of three_sessions ''session-c''
       = Some \<lparr>session_id = ''session-c'', createdAt = 0, lastActivity = 2000\<rparr>
   \<and> 1802001 - 2000 > maxAge \<and> teardown_removes quiet_sdk ''session-c''
   \<and> map_of (setupCleanup_tick quiet_sdk 1802001 three_sessions) ''session-c'' = None
   \<and> fst (handleClientToServerRequest quiet_sdk 1802002 (Some ''session-c'')
             (JObj [(''method'', JStr ''tools/list'')])
             (setupCleanup_tick quiet_sdk 1802001 three_sessions))
       = Json 400 (jsonrpc_error (- 32000)
           ''Bad Request: No valid session ID provided or not an initialization request'')"
  using inactive_sessions_swept [where sessions = three_sessions and sid = "''session-c''"
          and info = "\<lparr>session_id = ''session-c'', createdAt = 0, lastActivity = 2000\<rparr>"
          and now = 1802001 and k = quiet_sdk and ?k2.0 = quiet_sdk and ?now2.0 = 1802002
          and body = "JObj [(''method'', JStr ''tools/list'')]"]
  by (simp add: three_sessions_def maxAge_def teardown_removes_def quiet_sdk_def)

text \<open>
  \<^verbatim>\<open>session-b\<close> has been inactive for more than 30 minutes, but closing its server
  throws: after the sweep it is still registered and a POST with its identifier is
  forwarded to its transport.
\<close>

theorem stale_session_survives_failed_teardown:
  "map_of three_sessions ''session-b''
     = Some \<lparr>session_id = ''session-b'', createdAt = 0, lastActivity = 1000\<rparr>
   \<and> 1802001 - 1000 > maxAge
   \<and> map_of (setupCleanup_tick quiet_sdk 1802001 three_sessions) ''session-b''
     = Some \<lparr>session_id = ''session-b'', createdAt = 0, lastActivity = 1000\<rparr>
   \<and> fst (handleClientToServerRequest quiet_sdk 1802002 (Some ''session-b'')
             (JObj [(''method'', JStr ''tools/list'')])
             (setupCleanup_tick quiet_sdk 1802001 three_sessions))
       = FromTransport ''session-b''"
  by (simp add: three_sessions_swept handleClientToServerRequest_def has_session_id_def
        forward_to_transport_def)
     (simp add: three_sessions_def maxAge_def quiet_sdk_def)

section \<open>The authentication gate of the SSE transport\<close>

lemma unauthenticated_closeConnection:
  "unauthenticated t cid \<Longrightarrow> unauthenticated (fst (closeConnection c t)) cid"
  by (auto simp: unauthenticated_def closeConnection_def AList.delete_conv' split: option.splits)

lemma unauthenticated_sendMessage:
  "unauthenticated t cid \<Longrightarrow> unauthenticated (fst (snd (sendMessage w now c message t))) cid"
  using unauthenticated_closeConnection [of t cid c]
  by (auto simp: unauthenticated_def sendMessage_def AList.update_conv' split: option.splits)

lemma effects_closeConnection: "set (snd (closeConnection c t)) \<subseteq> {Ended c}"
  by (auto simp: closeConnection_def split: option.splits)

lemma effects_sendMessage:
  "set (snd (snd (sendMessage w now c message t))) \<subseteq> {Written c message, Ended c}"
  using effects_closeConnection [of c t]
  by (auto simp: sendMessage_def split: option.splits)

lemma process_absent:
  "map_of (connections t) c = None \<Longrightarrow> processIncomingMessage w now mid c message t = (t, [])"
  by (simp add: processIncomingMessage_def)

lemma process_auth:
  "map_of (connections t) c = Some cs \<Longrightarrow> is_auth_request message \<Longrightarrow>
   processIncomingMessage w now mid c message t
     = handleAuthentication w now mid c message (touch now c cs t)"
  by (simp add: processIncomingMessage_def Let_def touch_def)

lemma process_gate:
  "map_of (connections t) c = Some cs \<Longrightarrow> \<not> is_auth_request message \<Longrightarrow>
   \<not> authenticated (connection cs) \<Longrightarrow> msg_type message = ''request'' \<Longrightarrow>
   processIncomingMessage w now mid c message t
     = snd (sendMessage w now c (auth_required_error mid now message) (touch now c cs t))"
  by (simp add: processIncomingMessage_def Let_def touch_def)

lemma process_no_handler:
  "map_of (connections t) c = Some cs \<Longrightarrow> \<not> is_auth_request message \<Longrightarrow>
   authenticated (connection cs) \<or> msg_type message \<noteq> ''request'' \<Longrightarrow>
   map_of (messageHandlers t) (msg_type message) = None \<Longrightarrow>
   processIncomingMessage w now mid c message t = (touch now c cs t, [])"
  by (auto simp: processIncomingMessage_def Let_def touch_def)

lemma process_handler_request:
  "map_of (connections t) c = Some cs \<Longrightarrow> \<not> is_auth_request message \<Longrightarrow>
   authenticated (connection cs) \<Longrightarrow> msg_type message = ''request'' \<Longrightarrow>
   map_of (messageHandlers t) (msg_type message) = Some handler \<Longrightarrow>
   processIncomingMessage w now mid c message t
     = (fst (snd (sendMessage w now c (reply_of handler mid now message) (touch now c cs t))),
        Invoked c message
          # snd (snd (sendMessage w now c (reply_of handler mid now message) (touch now c cs t))))"
  by (simp add: processIncomingMessage_def Let_def touch_def split: prod.splits)

lemma process_handler_other:
  "map_of (connections t) c = Some cs \<Longrightarrow> \<not> is_auth_request message \<Longrightarrow>
   msg_type message \<noteq> ''request'' \<Longrightarrow>
   map_of (messageHandlers t) (msg_type message) = Some handler \<Longrightarrow>
   processIncomingMessage w now mid c message t = (touch now c cs t, [Invoked c message])"
  by (simp add: processIncomingMessage_def Let_def touch_def)


lemma process_cases [case_names auth gate none req other]:
  obtains (auth) "is_auth_request message"
    | (gate) "\<not> is_auth_request message" "\<not> authenticated (connection cs)"
             "msg_type message = ''request''"
    | (none) "\<not> is_auth_request message"
             "authenticated (connection cs) \<or> msg_type message \<noteq> ''request''"
             "map_of (messageHandlers t) (msg_type message) = None"
    | (req) handler where "\<not> is_auth_request message" "authenticated (connection cs)"
             "msg_type message = ''request''"
             "map_of (messageHandlers t) (msg_type message) = Some handler"
    | (other) handler where "\<not> is_auth_request message" "msg_type message \<noteq> ''request''"
             "map_of (messageHandlers t) (msg_type message) = Some handler"
proof (cases "map_of (messageHandlers t) (msg_type message)")
  case None
  then show ?thesis using auth gate none by blast
next
  case (Some handler)
  then show ?thesis using auth gate req other by blast
qed

lemma unauthenticated_touch:
  "unauthenticated t cid \<Longrightarrow> map_of (connections t) c = Some cs \<Longrightarrow>
   unauthenticated (touch now c cs t) cid"
  by (auto simp: unauthenticated_def touch_def AList.update_conv' split: option.splits)

lemma handleAuthentication_other:
  assumes "unauthenticated t cid" and "c \<noteq> cid"
  shows "unauthenticated (fst (handleAuthentication w now mid c message t)) cid"
proof (cases "map_of (connections t) c")
  case None
  then show ?thesis using assms(1) by (simp add: handleAuthentication_def)
next
  case (Some cs)
  define t2 where "t2 = t\<lparr>connections := AList.update c
                      (cs\<lparr>connection := (connection cs)
                         \<lparr>authenticated := True, sessionToken := Some (''dummy-token-'' @ c)\<rparr>\<rparr>)
                      (connections t)\<rparr>"
  have u2: "unauthenticated t2 cid"
    using assms by (auto simp: unauthenticated_def t2_def AList.update_conv' split: option.splits)
  have "handleAuthentication w now mid c message t
      = snd (sendMessage w now c
                \<lparr>msg_id = mid, msg_type = ''response'', correlationId = Some (msg_id message),
                 msg_timestamp = now,
                 msg_data = JObj [(''success'', JBool True),
                                  (''sessionToken'', JStr (''dummy-token-'' @ c))]\<rparr> t2)"
    by (simp add: handleAuthentication_def Some Let_def t2_def)
  then show ?thesis
    using unauthenticated_sendMessage [OF u2] by simp
qed

lemma step_preserves_unauthenticated:
  assumes "unauthenticated t cid" and "c = cid \<longrightarrow> \<not> is_auth_request message"
  shows "unauthenticated (fst (processIncomingMessage w now mid c message t)) cid"
proof (cases "map_of (connections t) c")
  case None
  then show ?thesis using assms(1) by (simp add: process_absent)
next
  case (Some cs)
  have u1: "unauthenticated (touch now c cs t) cid"
    using assms(1) Some by (rule unauthenticated_touch)
  note cases = process_cases [where message = message and cs = cs and t = t]
  show ?thesis
  proof (cases rule: cases)
    case auth
    then have "c \<noteq> cid" using assms(2) by auto
    then show ?thesis
      using handleAuthentication_other [OF u1] by (simp add: process_auth [OF Some auth])
  next
    case gate
    show ?thesis
      using unauthenticated_sendMessage [OF u1] by (simp add: process_gate [OF Some gate])
  next
    case none
    show ?thesis using u1 by (simp add: process_no_handler [OF Some none])
  next
    case (req handler)
    show ?thesis
      using unauthenticated_sendMessage [OF u1] by (simp add: process_handler_request [OF Some req])
  next
    case (other handler)
    show ?thesis using u1 by (simp add: process_handler_other [OF Some other])
  qed
qed

lemma step_invokes_no_request:
  assumes "unauthenticated t cid"
    and "Invoked cid m \<in> set (snd (processIncomingMessage w now mid c message t))"
  shows "msg_type m \<noteq> ''request''"
proof (cases "map_of (connections t) c")
  case None
  then show ?thesis using assms(2) by (simp add: process_absent)
next
  case (Some cs)
  note cases = process_cases [where message = message and cs = cs and t = t]
  show ?thesis
  proof (cases rule: cases)
    case auth
    have "set (snd (handleAuthentication w now mid c message (touch now c cs t)))
            \<subseteq> {e. \<forall>x y. e \<noteq> Invoked x y}"
    proof (cases "map_of (connections (touch now c cs t)) c")
      case None
      then show ?thesis by (simp add: handleAuthentication_def)
    next
      case (Some cs1)
      show ?thesis
        using effects_sendMessage
        by (simp add: handleAuthentication_def Some Let_def) blast
    qed
    then show ?thesis
      using assms(2) by (auto simp: process_auth [OF Some auth])
  next
    case gate
    have "set (snd (snd (sendMessage w now c (auth_required_error mid now message)
                           (touch now c cs t)))) \<subseteq> {e. \<forall>x y. e \<noteq> Invoked x y}"
      using effects_sendMessage by blast
    then show ?thesis
      using assms(2) by (auto simp: process_gate [OF Some gate])
  next
    case none
    show ?thesis using assms(2) by (simp add: process_no_handler [OF Some none])
  next
    case (req handler)
    have no: "Invoked cid m \<notin> set (snd (snd (sendMessage w now c (reply_of handler mid now message)
                (touch now c cs t))))"
      using effects_sendMessage by blast
    have "c = cid"
      using assms(2) no by (auto simp: process_handler_request [OF Some req])
    then have "\<not> authenticated (connection cs)"
      using assms(1) Some by (simp add: unauthenticated_def)
    with req(2) show ?thesis by simp
  next
    case (other handler)
    then show ?thesis using assms(2) by (auto simp: process_handler_other [OF Some other])
  qed
qed


lemma trace_stays_gated:
  assumes "unauthenticated t cid"
    and "\<forall>inp \<in> set inputs. fst (snd (snd inp)) = cid \<longrightarrow> \<not> is_auth_request (snd (snd (snd inp)))"
  shows "unauthenticated (fst (process_all w inputs t)) cid
       \<and> (\<forall>m. Invoked cid m \<in> set (snd (process_all w inputs t)) \<longrightarrow> msg_type m \<noteq> ''request'')"
  using assms
proof (induction inputs arbitrary: t)
  case Nil
  then show ?case by simp
next
  case (Cons inp rest)
  obtain now mid c message where inp: "inp = (now, mid, c, message)"
    by (cases inp) auto
  define t1 where "t1 = fst (processIncomingMessage w now mid c message t)"
  define e1 where "e1 = snd (processIncomingMessage w now mid c message t)"
  have na: "c = cid \<longrightarrow> \<not> is_auth_request message"
    using Cons.prems(2) inp by simp
  have u1: "unauthenticated t1 cid"
    unfolding t1_def using Cons.prems(1) na by (rule step_preserves_unauthenticated)
  have rest: "\<forall>inp \<in> set rest. fst (snd (snd inp)) = cid \<longrightarrow> \<not> is_auth_request (snd (snd (snd inp)))"
    using Cons.prems(2) by simp
  note ih = Cons.IH [OF u1 rest]
  have run: "process_all w (inp # rest) t
      = (fst (process_all w rest t1), e1 @ snd (process_all w rest t1))"
    by (simp add: inp t1_def e1_def split: prod.splits)
  have first: "\<forall>m. Invoked cid m \<in> set e1 \<longrightarrow> msg_type m \<noteq> ''request''"
    unfolding e1_def using step_invokes_no_request [OF Cons.prems(1)] by blast
  show ?case
    using ih first by (auto simp: run)
qed

lemma unauthenticated_start_ping:
  "unauthenticated t cid \<Longrightarrow> unauthenticated (start_ping c t) cid"
  by (auto simp: unauthenticated_def start_ping_def AList.update_conv' split: option.splits)

lemma unauthenticated_handleConnection:
  "unauthenticated (fst (handleConnection w now cid address mid t)) cid"
proof -
  define cs0 where "cs0 =
            \<lparr>connection = \<lparr>conn_id = cid, clientAddress = address, connectedAt = now,
                            conn_lastActivity = now, authenticated = False, sessionToken = None\<rparr>,
             isAlive = True, pingInterval = False\<rparr>"
  define t1 where "t1 = t\<lparr>connections := AList.update cid cs0 (connections t)\<rparr>"
  have u1: "unauthenticated t1 cid"
    by (simp add: unauthenticated_def t1_def cs0_def AList.update_conv')
  have "fst (handleConnection w now cid address mid t) =
      start_ping cid (fst (snd (sendMessage w now cid (connection_established mid now cid) t1)))"
    by (simp add: handleConnection_def Let_def cs0_def t1_def)
  then show ?thesis
    using unauthenticated_start_ping [OF unauthenticated_sendMessage [OF u1]] by simp
qed


lemma gate_effects:
  assumes "unauthenticated t cid" and "msg_type message = ''request''"
    and "\<not> is_auth_request message"
  shows "set (snd (processIncomingMessage w now mid cid message t))
           \<subseteq> {Written cid (auth_required_error mid now message), Ended cid}"
proof (cases "map_of (connections t) cid")
  case None
  then show ?thesis by (simp add: process_absent)
next
  case (Some cs)
  then have "\<not> authenticated (connection cs)"
    using assms(1) by (simp add: unauthenticated_def)
  then show ?thesis
    using effects_sendMessage by (simp add: process_gate [OF Some assms(3) _ assms(2)])
qed

lemma gate_answer:
  assumes "map_of (connections t) cid = Some cs" and "\<not> authenticated (connection cs)"
    and "isAlive cs" and "msg_type message = ''request''" and "\<not> is_auth_request message"
    and "\<not> w cid (auth_required_error mid now message)"
  shows "snd (processIncomingMessage w now mid cid message t)
           = [Written cid (auth_required_error mid now message)]"
  using assms(3,6)
  by (simp add: process_gate [OF assms(1,5,2,4)] sendMessage_def touch_def AList.update_conv')

lemma auth_transition:
  assumes "map_of (connections t) cid = Some cs" and "is_auth_request message"
  shows "case map_of (connections (fst (processIncomingMessage w now mid cid message t))) cid of
           None \<Rightarrow> True
         | Some cs' \<Rightarrow> authenticated (connection cs')"
  by (auto simp: process_auth [OF assms] handleAuthentication_def touch_def Let_def
        sendMessage_def closeConnection_def AList.update_conv' AList.delete_conv'
        split: option.splits)

text \<open>
  C8. A connection is registered unauthenticated. While it is unauthenticated, a request
  other than an authentication request leaves it so, calls no handler and is answered
  with the error of code -32001 (written to the stream; if the write throws, the
  connection is closed instead). Over any run of incoming messages that holds no
  authentication request for the connection, the connection stays unauthenticated and
  no request that came in on it reaches a handler. A step that takes an unauthenticated
  connection to authenticated is an authentication request on that connection, and
  after such a request the connection, if still open, is authenticated.
\<close>

theorem sse_authentication_gate:
  "unauthenticated (fst (handleConnection w now cid address mid t)) cid
   \<and> (unauthenticated t cid \<and> msg_type message = ''request'' \<and> \<not> is_auth_request message \<longrightarrow>
        unauthenticated (fst (processIncomingMessage w now mid cid message t)) cid
      \<and> set (snd (processIncomingMessage w now mid cid message t))
           \<subseteq> {Written cid (auth_required_error mid now message), Ended cid}
      \<and> (\<forall>cs. map_of (connections t) cid = Some cs \<and> isAlive cs
                \<and> \<not> w cid (auth_required_error mid now message) \<longrightarrow>
            snd (processIncomingMessage w now mid cid message t)
              = [Written cid (auth_required_error mid now message)]))
   \<and> (unauthenticated t cid
        \<and> (\<forall>inp \<in> set inputs. fst (snd (snd inp)) = cid \<longrightarrow> \<not> is_auth_request (snd (snd (snd inp))))
       \<longrightarrow> unauthenticated (fst (process_all w inputs t)) cid
         \<and> (\<forall>m. Invoked cid m \<in> set (snd (process_all w inputs t)) \<longrightarrow> msg_type m \<noteq> ''request''))
   \<and> (unauthenticated t cid
        \<and> \<not> unauthenticated (fst (processIncomingMessage w now mid c auth_message t)) cid
       \<longrightarrow> c = cid \<and> is_auth_request auth_message)
   \<and> (\<forall>cs. map_of (connections t) cid = Some cs \<and> is_auth_request auth_message \<longrightarrow>
         (case map_of (connections (fst (processIncomingMessage w now mid cid auth_message t))) cid of
            None \<Rightarrow> True
          | Some cs' \<Rightarrow> authenticated (connection cs')))"
proof (intro conjI impI allI)
  show "unauthenticated (fst (handleConnection w now cid address mid t)) cid"
    by (rule unauthenticated_handleConnection)
next
  assume a: "unauthenticated t cid \<and> msg_type message = ''request'' \<and> \<not> is_auth_request message"
  then show "unauthenticated (fst (processIncomingMessage w now mid cid message t)) cid"
    by (intro step_preserves_unauthenticated) simp_all
  from a show "set (snd (processIncomingMessage w now mid cid message t))
           \<subseteq> {Written cid (auth_required_error mid now message), Ended cid}"
    by (intro gate_effects) simp_all
  fix cs
  assume b: "map_of (connections t) cid = Some cs \<and> isAlive cs
                \<and> \<not> w cid (auth_required_error mid now message)"
  then have "\<not> authenticated (connection cs)"
    using a by (simp add: unauthenticated_def)
  then show "snd (processIncomingMessage w now mid cid message t)
              = [Written cid (auth_required_error mid now message)]"
    using a b by (intro gate_answer [where cs = cs]) simp_all
next
  assume a: "unauthenticated t cid
        \<and> (\<forall>inp \<in> set inputs. fst (snd (snd inp)) = cid \<longrightarrow> \<not> is_auth_request (snd (snd (snd inp))))"
  then have tr: "unauthenticated (fst (process_all w inputs t)) cid
       \<and> (\<forall>m. Invoked cid m \<in> set (snd (process_all w inputs t)) \<longrightarrow> msg_type m \<noteq> ''request'')"
    by (intro trace_stays_gated) simp_all
  then show "unauthenticated (fst (process_all w inputs t)) cid" by simp
  fix m assume "Invoked cid m \<in> set (snd (process_all w inputs t))"
  with tr show "msg_type m \<noteq> ''request''" by simp
next
  assume a: "unauthenticated t cid
        \<and> \<not> unauthenticated (fst (processIncomingMessage w now mid c auth_message t)) cid"
  have "\<not> (c = cid \<longrightarrow> \<not> is_auth_request auth_message)"
    using a step_preserves_unauthenticated [of t cid c auth_message w now mid] by blast
  then show "c = cid" and "is_auth_request auth_message" by simp_all
next
  fix cs
  assume "map_of (connections t) cid = Some cs \<and> is_auth_request auth_message"
  then show "case map_of (connections (fst (processIncomingMessage w now mid cid auth_message t))) cid of
            None \<Rightarrow> True
          | Some cs' \<Rightarrow> authenticated (connection cs')"
    by (intro auth_transition [where cs = cs]) simp_all
qed

lemma fresh_connection_eq:
  "fresh_connection =
     \<lparr>connections = [(''sse_1'',
        \<lparr>connection = \<lparr>conn_id = ''sse_1'', clientAddress = ''127.0.0.1'', connectedAt = 0,
                        conn_lastActivity = 0, authenticated = False, sessionToken = None\<rparr>,
         isAlive = True, pingInterval = True\<rparr>)],
      messageHandlers = echo_handlers\<rparr>"
  by (simp add: fresh_connection_def handleConnection_def Let_def sendMessage_def
        never_throws_def start_ping_def)

theorem sse_authentication_gate_witness:
  "unauthenticated fresh_connection ''sse_1''
   \<and> msg_type list_tools_request = ''request'' \<and> \<not> is_auth_request list_tools_request
   \<and> snd (processIncomingMessage never_throws 5 ''msg_2'' ''sse_1'' list_tools_request
             fresh_connection)
       = [Written ''sse_1'' (auth_required_error ''msg_2'' 5 list_tools_request)]
   \<and> \<not> is_auth_request progress_notification
   \<and> unauthenticated
         (fst (process_all never_throws
                 [(5, ''msg_2'', ''sse_1'', list_tools_request),
                  (6, ''msg_3'', ''sse_1'', progress_notification)] fresh_connection)) ''sse_1''
   \<and> is_auth_request auth_request
   \<and> \<not> unauthenticated
         (fst (processIncomingMessage never_throws 5 ''msg_2'' ''sse_1'' auth_request
                 fresh_connection)) ''sse_1''"
proof -
  have u: "unauthenticated fresh_connection ''sse_1''"
    by (simp add: fresh_connection_eq unauthenticated_def)
  have r: "msg_type list_tools_request = ''request''" "\<not> is_auth_request list_tools_request"
    and n: "\<not> is_auth_request progress_notification"
    and a: "is_auth_request auth_request"
    by (simp_all add: list_tools_request_def progress_notification_def auth_request_def
          is_auth_request_def)
  have alive: "map_of (connections fresh_connection) ''sse_1''
       = Some (the (map_of (connections fresh_connection) ''sse_1''))"
      "isAlive (the (map_of (connections fresh_connection) ''sse_1''))"
      "\<not> never_throws ''sse_1'' (auth_required_error ''msg_2'' 5 list_tools_request)"
    by (simp_all add: fresh_connection_eq never_throws_def)
  have authd: "\<not> unauthenticated
         (fst (processIncomingMessage never_throws 5 ''msg_2'' ''sse_1'' auth_request
                 fresh_connection)) ''sse_1''"
    using a
    by (simp add: fresh_connection_eq processIncomingMessage_def Let_def handleAuthentication_def
          touch_def sendMessage_def never_throws_def unauthenticated_def)
  note gate = sse_authentication_gate [where t = fresh_connection and cid = "''sse_1''"
      and message = list_tools_request and w = never_throws and now = 5 and mid = "''msg_2''"
      and c = "''sse_1''" and auth_message = auth_request
      and inputs = "[(5, ''msg_2'', ''sse_1'', list_tools_request),
                     (6, ''msg_3'', ''sse_1'', progress_notification)]"]
  have answered: "snd (processIncomingMessage never_throws 5 ''msg_2'' ''sse_1''
                         list_tools_request fresh_connection)
       = [Written ''sse_1'' (auth_required_error ''msg_2'' 5 list_tools_request)]"
    using gate u r alive by blast
  have gated: "unauthenticated
         (fst (process_all never_throws
                 [(5, ''msg_2'', ''sse_1'', list_tools_request),
                  (6, ''msg_3'', ''sse_1'', progress_notification)] fresh_connection)) ''sse_1''"
    using gate u r n by simp
  show ?thesis
    using u r n a answered gated authd by simp
qed

end
